theory Spec2Isabelle
  imports Complex_Main "HOL-Library.While_Combinator" "HOL-Library.Sublist"
begin

unbundle bit_operations_syntax

section \<open>Data model (types.ts)\<close>

text \<open>
  The spectrum module of \<^verbatim>\<open>src/SpectrumCalculationModule.ts\<close>, embedded function by
  function. A JavaScript \<^verbatim>\<open>number\<close> is an IEEE 754 double; the model keeps the real number
  that a finite double denotes. NaN and the infinities lie outside the model, and where the
  source divides zero by zero the model says so explicitly instead of using HOL's
  \<open>x / 0 = 0\<close>.
\<close>

section \<open>JavaScript numbers\<close>

text \<open>
  The finite doubles are the reals \<open>m * 2 ^ e\<close> with an integer \<open>m\<close>, \<open>\<bar>m\<bar> < 2 ^ 53\<close>
  and \<open>- 1074 \<le> e\<close>. An arithmetic operation returns the exact result rounded to the
  nearest double, a tie going to the even significand: \<open>binade x\<close> is the exponent of
  \<open>x\<close>, \<open>quantum x\<close> the spacing of the doubles around \<open>x\<close> (the subnormal spacing
  \<open>2 ^ - 1074\<close> below \<open>2 ^ - 1022\<close>), and \<open>double x\<close> the multiple of the quantum
  nearest to \<open>x\<close>. The same rounding reads a decimal literal and the string that
  \<^verbatim>\<open>parseFloat\<close> is given.

  A rounded result of magnitude \<open>2 ^ 1024\<close> or more is Infinity in the source;
  \<open>double\<close> keeps the real number, and \<open>finiteNumber\<close> says that a result is a finite
  double. A comparison of a finite double with such a result comes out as in the source.

  The sums of the band loop, the product of the sample-rate check, the arithmetic of the
  integration and \<^verbatim>\<open>parseFloat\<close> are rounded. The path of the samples (window,
  transform, magnitudes, bin indices) is written in exact arithmetic: the statements below
  read its values only where they are zero and in concrete runs whose operations are exact.
\<close>

definition roundEven :: "real \<Rightarrow> int" where
  "roundEven y =
     (let n = \<lfloor>y\<rfloor> in
      if y - of_int n < 1 / 2 then n
      else if y - of_int n > 1 / 2 then n + 1
      else if even n then n else n + 1)"

definition binade :: "real \<Rightarrow> int" where
  "binade x = \<lfloor>log 2 \<bar>x\<bar>\<rfloor>"

definition quantum :: "real \<Rightarrow> real" where
  "quantum x = 2 powi (max (binade x) (- 1022) - 52)"

definition double :: "real \<Rightarrow> real" where
  "double x = (if x = 0 then 0 else quantum x * of_int (roundEven (x / quantum x)))"


text \<open>The operations \<^verbatim>\<open>+\<close>, \<^verbatim>\<open>*\<close> and \<^verbatim>\<open>/\<close> on numbers.\<close>

definition fadd :: "real \<Rightarrow> real \<Rightarrow> real" where
  "fadd a b = double (a + b)"

definition fmul :: "real \<Rightarrow> real \<Rightarrow> real" where
  "fmul a b = double (a * b)"

definition fdiv :: "real \<Rightarrow> real \<Rightarrow> real" where
  "fdiv a b = double (a / b)"

text \<open>\<^verbatim>\<open>Math.PI\<close>, the double nearest to \<open>pi\<close>: \<open>3.141592653589793\<close>.\<close>

definition Math_PI :: real where
  "Math_PI = 884279719003555 / 2 ^ 48"

datatype WindowType = Hanning | Rectangular

datatype Quantity = Acceleration | Velocity | Displacement

record TimeWaveform =
  data :: "real list"
  sampleRate :: real
  quantity :: Quantity

text \<open>
  A band key is the two-element array \<^verbatim>\<open>[startFreq, endFreq]\<close>. \<^verbatim>\<open>bandPeaks\<close> is a JavaScript
  \<^verbatim>\<open>Map\<close> keyed by such arrays: keys are compared by object identity and iteration follows
  insertion order, so the map is a list of entries in insertion order, in which two entries
  may carry equal numbers. The fields \<^verbatim>\<open>maxFrequency\<close> and \<^verbatim>\<open>quantity\<close> of the result carry the
  prefix \<open>res_\<close>, the names being taken by the module and the waveform.
  \<^verbatim>\<open>rawSpectrum\<close> is the untyped extra property that \<^verbatim>\<open>calculateSpectrum\<close> attaches.
\<close>

type_synonym band = "real \<times> real"

record SpectrumResult =
  res_maxFrequency :: real
  resolution :: real
  res_quantity :: Quantity
  bandPeaks :: "(band \<times> real) list"
  isValid :: bool
  errorMessage :: "string option"
  rawSpectrum :: "real list option"

abbreviation (input) MAX_LINES :: real where "MAX_LINES \<equiv> 102400"
abbreviation (input) MIN_LINES :: real where "MIN_LINES \<equiv> 100"
abbreviation (input) MAX_SAMPLE_RATE :: real where "MAX_SAMPLE_RATE \<equiv> 131072"
abbreviation (input) MAX_WAVEFORM_LENGTH :: real where "MAX_WAVEFORM_LENGTH \<equiv> 5 * 60"
abbreviation (input) MAX_SPECTRUM_CALC_TIME :: int where "MAX_SPECTRUM_CALC_TIME \<equiv> 100"

text \<open>The private fields of the class; \<open>this\<close> is passed explicitly.\<close>

record SpectrumCalculationModule =
  numberOfLines :: real
  windowType :: WindowType
  minFrequency :: real
  maxFrequency :: real
  highPassFrequency :: real
  lowPassFrequency :: real
  bandRange :: real

text \<open>The field initialisers of the class: the state of a fresh module.\<close>

definition initialModule :: SpectrumCalculationModule where
  "initialModule =
     \<lparr>numberOfLines = 1024, windowType = Hanning, minFrequency = 0, maxFrequency = 1000,
      highPassFrequency = 0, lowPassFrequency = 0, bandRange = 25\<rparr>"

section \<open>Helpers of the module\<close>

definition areParametersValid :: "SpectrumCalculationModule \<Rightarrow> bool" where
  "areParametersValid this \<longleftrightarrow>
     numberOfLines this \<ge> MIN_LINES \<and>
     numberOfLines this \<le> MAX_LINES \<and>
     minFrequency this \<ge> 0 \<and>
     maxFrequency this > minFrequency this \<and>
     bandRange this > 0 \<and>
     bandRange this \<le> maxFrequency this"

definition isFilterValid :: "SpectrumCalculationModule \<Rightarrow> bool" where
  "isFilterValid this =
     (if highPassFrequency this = 0 then True
      else if lowPassFrequency this = 0 then True
      else highPassFrequency this < lowPassFrequency this)"

definition isIntegrationAllowed :: "SpectrumCalculationModule \<Rightarrow> bool" where
  "isIntegrationAllowed this \<longleftrightarrow> highPassFrequency this > 0"

text \<open>
  \<^verbatim>\<open>parseFloat(value.toFixed(10))\<close>: \<^verbatim>\<open>toFixed\<close> takes the sign off, picks the integer \<open>n\<close>
  with \<open>n / 10^10\<close> nearest to the absolute value (the larger one on a tie) and prints
  \<open>n\<close> with ten decimals; \<^verbatim>\<open>parseFloat\<close> returns the double nearest to that decimal.
\<close>

definition toFixed10 :: "real \<Rightarrow> real" where
  "toFixed10 v = sgn v * real_of_int \<lfloor>\<bar>v\<bar> * 10 ^ 10 + 1 / 2\<rfloor> / 10 ^ 10"

definition limitPrecision :: "real \<Rightarrow> real" where
  "limitPrecision v = double (toFixed10 v)"

section \<open>integrateSpectrum\<close>

text \<open>\<^verbatim>\<open>(band[0] + band[1]) / 2\<close>.\<close>

definition centerFreq :: "band \<Rightarrow> real" where
  "centerFreq band = fdiv (fadd (fst band) (snd band)) 2"

text \<open>
  One pass of the loop over \<^verbatim>\<open>spectrum.bandPeaks.entries()\<close>. The keys of the input map are
  distinct objects, so each \<^verbatim>\<open>result.bandPeaks.set(band, integratedValue)\<close> on the fresh map
  appends an entry.
\<close>

definition integrateBand :: "band \<times> real \<Rightarrow> SpectrumResult \<Rightarrow> SpectrumResult" where
  "integrateBand entry result =
     (let band = fst entry; value = snd entry in
      if centerFreq band \<le> 0 then result
      else
        let integratedValue =
              limitPrecision (fdiv value (fmul (fmul 2 Math_PI) (centerFreq band)))
        in result\<lparr>bandPeaks := bandPeaks result @ [(band, integratedValue)]\<rparr>)"

definition integrateSpectrum ::
    "SpectrumCalculationModule \<Rightarrow> SpectrumResult \<Rightarrow> SpectrumResult" where
  "integrateSpectrum this spectrum =
     (if \<not> isIntegrationAllowed this then
        spectrum\<lparr>isValid := False,
          errorMessage := Some ''Integration is not allowed when high pass filter is not used''\<rparr>
      else if res_quantity spectrum = Displacement then
        spectrum\<lparr>isValid := False,
          errorMessage := Some ''Cannot integrate displacement to prevent double integration''\<rparr>
      else
        let newQuantity =
              (case res_quantity spectrum of
                 Acceleration \<Rightarrow> Velocity
               | Velocity \<Rightarrow> Displacement
               | Displacement \<Rightarrow> res_quantity spectrum);
            result = spectrum\<lparr>res_quantity := newQuantity, bandPeaks := [], isValid := True\<rparr>
        in fold integrateBand (bandPeaks spectrum) result)"

section \<open>calculatePeakInBand\<close>

fun findBand :: "(band \<times> real) list \<Rightarrow> real \<Rightarrow> real \<Rightarrow> real" where
  "findBand [] startFreq endFreq = - 1"
| "findBand ((band, value) # rest) startFreq endFreq =
     (if fst band = startFreq \<and> snd band = endFreq then value
      else findBand rest startFreq endFreq)"

definition calculatePeakInBand :: "SpectrumResult \<Rightarrow> real \<Rightarrow> real \<Rightarrow> real" where
  "calculatePeakInBand spectrum startFreq endFreq =
     (if \<not> isValid spectrum then - 1
      else findBand (bandPeaks spectrum) startFreq endFreq)"

section \<open>calculateSpectrum\<close>

text \<open>
  \<^verbatim>\<open>applyWindow\<close>. The Hanning coefficient of sample \<open>i\<close> of \<open>n\<close> is
  \<open>0.5 * (1 - cos (2 * pi * i / (n - 1)))\<close>. For \<open>n = 1\<close> the quotient is \<open>0 / 0\<close>,
  NaN in the source: the windowed sample is not a real number, and the model returns
  \<open>None\<close>.
\<close>

definition applyWindow :: "SpectrumCalculationModule \<Rightarrow> real list \<Rightarrow> real list option" where
  "applyWindow this dat =
     (let n = length dat in
      case windowType this of
        Hanning \<Rightarrow>
          if n = 1 then None
          else Some (map (\<lambda>i. dat ! i * (0.5 * (1 - cos (2 * pi * real i / (real n - 1)))))
                       [0..<n])
      | Rectangular \<Rightarrow> Some dat)"

text \<open>
  \<^verbatim>\<open>getNextPowerOfTwo\<close>, on an array length. The \<^verbatim>\<open>while\<close> loop is the state
  transformer of \<^const>\<open>while_option\<close>: \<open>None\<close> would be a loop that never ends.
  The source's \<^verbatim>\<open>&\<close> works on 32-bit integers; the lengths that reach it are at most
  \<open>131072 * 300\<close>, below \<open>2 ^ 31\<close>, where it is the conjunction of the integers.
\<close>

definition getNextPowerOfTwo :: "nat \<Rightarrow> nat option" where
  "getNextPowerOfTwo n =
     (if (int n AND (int n - 1)) = 0 then Some n
      else while_option (\<lambda>power. power < n) (\<lambda>power. power * 2) 1)"

text \<open>
  The transform is the external package fft.js and no code of this repository. Its
  constructor \<^verbatim>\<open>new FFT(size)\<close> throws unless the size is a power of two bigger than 1;
  this is the only way \<^verbatim>\<open>calculateSpectrum\<close> throws. What \<^verbatim>\<open>realTransform\<close> writes
  into the interleaved array \<^verbatim>\<open>out\<close> is a parameter of the model: \<open>realTransform input j\<close>
  is \<^verbatim>\<open>out[j]\<close>.
\<close>

datatype error = FFTSizeError

definition FFT :: "nat \<Rightarrow> error + unit" where
  "FFT n = (if n \<le> 1 \<or> (int n AND (int n - 1)) \<noteq> 0 then Inl FFTSizeError else Inr ())"

text \<open>
  \<^verbatim>\<open>applyFrequencyDomainFiltering\<close>. The three loops write zeros at the indices they visit;
  \<open>i < k && i < filtered.length\<close> from \<open>0\<close> visits the indices below the length as long
  as they are below \<open>k\<close>. Every caller passes a positive \<open>resolution\<close>.
\<close>

definition zeroAt :: "nat list \<Rightarrow> real list \<Rightarrow> real list" where
  "zeroAt idxs filtered = fold (\<lambda>i f. f[i := 0]) idxs filtered"

definition applyFrequencyDomainFiltering ::
    "SpectrumCalculationModule \<Rightarrow> real list \<Rightarrow> real \<Rightarrow> real list" where
  "applyFrequencyDomainFiltering this spectrum res =
     (let filtered = spectrum;
          minFreqIndex = \<lfloor>minFrequency this / res\<rfloor>;
          filtered = zeroAt (takeWhile (\<lambda>i. int i < minFreqIndex) [0..<length filtered]) filtered;
          filtered =
            (if highPassFrequency this > 0 then
               let highPassIndex = \<lfloor>highPassFrequency this / res\<rfloor>
               in zeroAt (takeWhile (\<lambda>i. int i < highPassIndex) [0..<length filtered]) filtered
             else filtered);
          cutoffFreq =
            (if lowPassFrequency this > 0 then min (maxFrequency this) (lowPassFrequency this)
             else maxFrequency this);
          cutoffIndex = \<lceil>cutoffFreq / res\<rceil>
      in zeroAt [nat cutoffIndex..<length filtered] filtered)"

text \<open>
  \<^verbatim>\<open>calculateRealPeakInBand\<close>. The loop runs from \<open>startIndex\<close> while
  \<open>i < endIndex && i < spectrum.length\<close>; a negative index reads \<^verbatim>\<open>undefined\<close>, which
  is not greater than \<open>maxValue\<close>, so the visits that count start at \<open>nat startIndex\<close>.
\<close>

definition calculateRealPeakInBand :: "real list \<Rightarrow> real \<Rightarrow> real \<Rightarrow> real \<Rightarrow> real" where
  "calculateRealPeakInBand spectrum startFreq endFreq res =
     (let startIndex = \<lfloor>startFreq / res\<rfloor>;
          endIndex = \<lceil>endFreq / res\<rceil>;
          maxValue =
            fold (\<lambda>i maxValue. if spectrum ! i > maxValue then spectrum ! i else maxValue)
              (takeWhile (\<lambda>i. int i < endIndex) [nat startIndex..<length spectrum]) 0
      in limitPrecision maxValue)"

text \<open>\<^verbatim>\<open>xs.slice(0, e)\<close>: \<open>e\<close> is truncated to an integer, a negative one counts from the end.\<close>

definition slice0 :: "'a list \<Rightarrow> real \<Rightarrow> 'a list" where
  "slice0 xs e =
     (let relativeEnd = (if e < 0 then \<lceil>e\<rceil> else \<lfloor>e\<rfloor>);
          final = (if relativeEnd < 0 then max (int (length xs) + relativeEnd) 0
                   else min relativeEnd (int (length xs)))
      in take (nat final) xs)"

text \<open>
  The loop that creates the bands: the state is \<open>startFreq\<close> and the entries of
  \<^verbatim>\<open>result.bandPeaks\<close> so far. Each pass builds a new key array, so \<^verbatim>\<open>set\<close> appends.
  \<^verbatim>\<open>startFreq + this.bandRange\<close> is a sum of doubles, in the key and in the update of
  \<open>startFreq\<close>; when it is absorbed (\<open>fadd startFreq bandRange = startFreq\<close>) the loop
  does not end.
\<close>

definition bandStep ::
    "SpectrumCalculationModule \<Rightarrow> real list \<Rightarrow> real \<Rightarrow> real \<times> (band \<times> real) list
      \<Rightarrow> real \<times> (band \<times> real) list" where
  "bandStep this spectrum res st =
     (let startFreq = fst st;
          endFreq = min (fadd startFreq (bandRange this)) (maxFrequency this);
          peakValue = calculateRealPeakInBand spectrum startFreq endFreq res
      in (fadd startFreq (bandRange this), snd st @ [((startFreq, endFreq), peakValue)]))"

definition bandLoop ::
    "SpectrumCalculationModule \<Rightarrow> real list \<Rightarrow> real \<Rightarrow> (band \<times> real) list option" where
  "bandLoop this spectrum res =
     map_option snd
       (while_option (\<lambda>st. fst st < maxFrequency this) (bandStep this spectrum res)
          (minFrequency this, []))"

text \<open>The object literal of the rejections, which differ in the resolution and the reason.\<close>

definition invalidResult ::
    "SpectrumCalculationModule \<Rightarrow> TimeWaveform \<Rightarrow> real \<Rightarrow> string \<Rightarrow> SpectrumResult" where
  "invalidResult this waveform res msg =
     \<lparr>res_maxFrequency = maxFrequency this, resolution = res, res_quantity = quantity waveform,
      bandPeaks = [], isValid = False, errorMessage = Some msg, rawSpectrum = None\<rparr>"

text \<open>
  The magnitudes of the first half of the bins. The padded length is a power of two bigger
  than 1 when the loop is reached, so half of it is an integer.
\<close>

definition magnitudeSpectrum :: "(nat \<Rightarrow> real) \<Rightarrow> nat \<Rightarrow> real list" where
  "magnitudeSpectrum out paddedLength =
     map (\<lambda>i. let re = out (2 * i); im = out (2 * i + 1)
              in limitPrecision (sqrt (re * re + im * im) / real paddedLength))
       [0..<paddedLength div 2]"

text \<open>
  \<^verbatim>\<open>calculateSpectrum\<close>. \<open>startTime\<close> and \<open>endTime\<close> are the two readings of
  \<^verbatim>\<open>Date.now()\<close>. The outer \<open>option\<close> is \<open>None\<close> when a loop does not end, \<open>Inl\<close> is
  the exception of the transform's constructor. With one NaN sample the padded length is 1,
  and the constructor throws. The third check compares with the product of doubles
  \<^verbatim>\<open>this.maxFrequency * 2.56\<close>, the literal being the double nearest to \<open>2.56\<close>.
\<close>

definition calculateSpectrum ::
    "(real list \<Rightarrow> nat \<Rightarrow> real) \<Rightarrow> int \<Rightarrow> int \<Rightarrow> SpectrumCalculationModule \<Rightarrow> TimeWaveform
      \<Rightarrow> (error + SpectrumResult) option" where
  "calculateSpectrum realTransform startTime endTime this waveform =
     (if \<not> areParametersValid this then
        Some (Inr (invalidResult this waveform 0 ''Invalid spectrum parameters''))
      else if \<not> isFilterValid this then
        Some (Inr (invalidResult this waveform 0
          ''High pass frequency must be smaller than low pass frequency''))
      else if sampleRate waveform < fmul (maxFrequency this) (double 2.56) then
        Some (Inr (invalidResult this waveform 0
          ''Sample rate must be at least 2.56 times higher than maximum frequency''))
      else if sampleRate waveform > MAX_SAMPLE_RATE then
        Some (Inr (invalidResult this waveform 0 ''Sample rate cannot exceed 131072 Hz''))
      else if real (length (data waveform)) > MAX_SAMPLE_RATE * MAX_WAVEFORM_LENGTH then
        Some (Inr (invalidResult this waveform 0
          ''Time waveform length exceeds maximum allowed (5 minutes at 131072 Hz)''))
      else
        case applyWindow this (data waveform) of
          None \<Rightarrow> Some (Inl FFTSizeError)
        | Some windowedData \<Rightarrow>
        (case getNextPowerOfTwo (length windowedData) of
          None \<Rightarrow> None
        | Some nextPowerOfTwo \<Rightarrow>
          let paddedData =
                (if nextPowerOfTwo > length windowedData
                 then windowedData @ replicate (nextPowerOfTwo - length windowedData) 0
                 else windowedData)
          in
          (case FFT (length paddedData) of
            Inl e \<Rightarrow> Some (Inl e)
          | Inr fft \<Rightarrow>
            let out = realTransform paddedData;
                spectrum = magnitudeSpectrum out (length paddedData);
                res = sampleRate waveform / real (length paddedData);
                filteredSpectrum = applyFrequencyDomainFiltering this spectrum res;
                limitedSpectrum =
                  slice0 filteredSpectrum (min (real (length filteredSpectrum)) (numberOfLines this))
            in
            (case bandLoop this spectrum res of
              None \<Rightarrow> None
            | Some bands \<Rightarrow>
              let result =
                    \<lparr>res_maxFrequency = maxFrequency this, resolution = res,
                     res_quantity = quantity waveform, bandPeaks = bands, isValid = True,
                     errorMessage = None, rawSpectrum = Some spectrum\<rparr>
              in
              if endTime - startTime > MAX_SPECTRUM_CALC_TIME then
                Some (Inr (invalidResult this waveform res
                  ''Spectrum calculation time exceeded maximum allowed (100 ms)''))
              else Some (Inr result)))))"

section \<open>Closed forms used in the statements\<close>

text \<open>
  The quotient \<^verbatim>\<open>value / (2 * Math.PI * centerFreq)\<close> of the integration, in the
  operations of the source, and what the integration loop leaves in the fresh map as one
  expression: the entries with a positive centre frequency, in their order, each with its
  quotient rounded to ten decimals.
\<close>

definition integrationQuotient :: "band \<Rightarrow> real \<Rightarrow> real" where
  "integrationQuotient band value = fdiv value (fmul (fmul 2 Math_PI) (centerFreq band))"

definition integratedEntries :: "(band \<times> real) list \<Rightarrow> (band \<times> real) list" where
  "integratedEntries entries =
     map (\<lambda>entry. (fst entry, limitPrecision (integrationQuotient (fst entry) (snd entry))))
       (filter (\<lambda>entry. centerFreq (fst entry) > 0) entries)"


text \<open>
  The value of \<open>startFreq\<close> after \<open>k\<close> passes of the band loop, and the \<open>k\<close>-th entry
  that the loop creates.
\<close>

definition bandStart :: "SpectrumCalculationModule \<Rightarrow> nat \<Rightarrow> real" where
  "bandStart this k = ((\<lambda>startFreq. fadd startFreq (bandRange this)) ^^ k) (minFrequency this)"

definition bandEntry ::
    "SpectrumCalculationModule \<Rightarrow> real list \<Rightarrow> real \<Rightarrow> nat \<Rightarrow> band \<times> real" where
  "bandEntry this spectrum res k =
     (let startFreq = bandStart this k;
          endFreq = min (bandStart this (Suc k)) (maxFrequency this)
      in ((startFreq, endFreq), calculateRealPeakInBand spectrum startFreq endFreq res))"

section \<open>Concrete inputs\<close>

text \<open>
  A module with the high-pass filter set (\<^verbatim>\<open>setHighPassFrequency(10)\<close> on a fresh module), and a
  result whose first band has centre frequency 0.
\<close>

definition integrationModule :: SpectrumCalculationModule where
  "integrationModule = initialModule\<lparr>highPassFrequency := 10\<rparr>"

definition exampleResult :: SpectrumResult where
  "exampleResult =
     \<lparr>res_maxFrequency = 1000, resolution = 1, res_quantity = Acceleration,
      bandPeaks = [((0, 0), 1), ((10, 35), 1 / 2)], isValid = True, errorMessage = None,
      rawSpectrum = None\<rparr>"

text \<open>
  An instance of the transform parameter: the discrete Fourier transform
  \<open>X k = (\<Sum>m. x m * exp (- 2 * pi * \<i> * k * m / n))\<close> with \<open>out[2k]\<close> its real and
  \<open>out[2k+1]\<close> its imaginary part, which is what the external package computes up to
  rounding. It serves the concrete inputs only; the general theorems hold for every
  transform.
\<close>

definition dft :: "real list \<Rightarrow> nat \<Rightarrow> real" where
  "dft input j =
     (let n = length input; k = j div 2 in
      if even j then (\<Sum>m\<leftarrow>[0..<n]. input ! m * cos (2 * pi * real k * real m / real n))
      else - (\<Sum>m\<leftarrow>[0..<n]. input ! m * sin (2 * pi * real k * real m / real n)))"

text \<open>
  Waveforms of four samples: silence at 4096 Hz and at 1000 Hz, and a unit impulse at
  150 kHz and at 256 Hz. \<open>wideModule\<close> is a fresh module after
  \<^verbatim>\<open>setMaxFrequency(60000)\<close>; \<open>filterModule\<close> has a rectangular window, two bands of 40 Hz
  up to 80 Hz and a high-pass filter at 70 Hz. \<open>longImpulse\<close> has 1024 samples, so that
  its spectrum has more bins than the smallest line count.
\<close>

definition quietWaveform :: TimeWaveform where
  "quietWaveform = \<lparr>data = [0, 0, 0, 0], sampleRate = 4096, quantity = Acceleration\<rparr>"

definition slowWaveform :: TimeWaveform where
  "slowWaveform = \<lparr>data = [0, 0, 0, 0], sampleRate = 1000, quantity = Acceleration\<rparr>"

definition wideModule :: SpectrumCalculationModule where
  "wideModule = initialModule\<lparr>maxFrequency := 60000\<rparr>"

definition fastWaveform :: TimeWaveform where
  "fastWaveform = \<lparr>data = [1, 0, 0, 0], sampleRate = 150000, quantity = Acceleration\<rparr>"

definition filterModule :: SpectrumCalculationModule where
  "filterModule =
     \<lparr>numberOfLines = 1024, windowType = Rectangular, minFrequency = 0, maxFrequency = 80,
      highPassFrequency = 70, lowPassFrequency = 0, bandRange = 40\<rparr>"

definition impulse :: TimeWaveform where
  "impulse = \<lparr>data = [1, 0, 0, 0], sampleRate = 256, quantity = Acceleration\<rparr>"

definition longImpulse :: TimeWaveform where
  "longImpulse = \<lparr>data = 1 # replicate 1023 0, sampleRate = 4096, quantity = Acceleration\<rparr>"

definition impulseResult :: SpectrumResult where
  "impulseResult =
     \<lparr>res_maxFrequency = 80, resolution = 64, res_quantity = Acceleration,
      bandPeaks = [((0, 40), 1 / 4), ((40, 80), 1 / 4)], isValid = True,
      errorMessage = None, rawSpectrum = Some [1 / 4, 1 / 4]\<rparr>"

text \<open>
  A module after \<^verbatim>\<open>setWindowType(Rectangular)\<close>, \<^verbatim>\<open>setMaxFrequency(0.4)\<close> and
  \<^verbatim>\<open>setBandRange(0.1)\<close>, and the result that the impulse gives with it: four bands, whose
  keys are the doubles \<open>0.1\<close>, \<open>0.2\<close>, \<open>0.30000000000000004\<close> and \<open>0.4\<close>.
\<close>

definition tenthModule :: SpectrumCalculationModule where
  "tenthModule =
     \<lparr>numberOfLines = 1024, windowType = Rectangular, minFrequency = 0,
      maxFrequency = double (4 / 10), highPassFrequency = 0, lowPassFrequency = 0,
      bandRange = double (1 / 10)\<rparr>"

definition tenthResult :: SpectrumResult where
  "tenthResult =
     \<lparr>res_maxFrequency = 3602879701896397 / 2 ^ 53, resolution = 64,
      res_quantity = Acceleration,
      bandPeaks =
        [((0, 3602879701896397 / 2 ^ 55), 1 / 4),
         ((3602879701896397 / 2 ^ 55, 3602879701896397 / 2 ^ 54), 1 / 4),
         ((3602879701896397 / 2 ^ 54, 1351079888211149 / 2 ^ 52), 1 / 4),
         ((1351079888211149 / 2 ^ 52, 3602879701896397 / 2 ^ 53), 1 / 4)],
      isValid = True, errorMessage = None, rawSpectrum = Some [1 / 4, 1 / 4]\<rparr>"

text \<open>
  A fresh module after \<^verbatim>\<open>setMinFrequency(1)\<close> and \<^verbatim>\<open>setBandRange(1e-17)\<close>: the sum of
  its \<open>minFrequency\<close> and its \<open>bandRange\<close> is the double 1.
\<close>

definition stuckModule :: SpectrumCalculationModule where
  "stuckModule = initialModule\<lparr>minFrequency := 1, bandRange := double (1 / 10 ^ 17)\<rparr>"

section \<open>integrateSpectrum on a heap of objects\<close>

text \<open>
  Whether \<^verbatim>\<open>integrateSpectrum\<close> writes to its argument depends on which objects the result
  shares with it, which the functional model above cannot say. Here a result is an object
  on a heap: its \<^verbatim>\<open>bandPeaks\<close> field holds the address of a \<^verbatim>\<open>Map\<close> object, whose entries
  pair the address of a key array with a value, and \<^verbatim>\<open>rawSpectrum\<close>, when present, holds the
  address of an array. The heap is the list of the objects allocated so far, an address is
  an index, and \<^verbatim>\<open>new\<close> appends.
\<close>

type_synonym addr = nat

record ResultObject =
  o_maxFrequency :: real
  o_resolution :: real
  o_quantity :: Quantity
  o_bandPeaks :: addr
  o_isValid :: bool
  o_errorMessage :: "string option"
  o_rawSpectrum :: "addr option"

datatype object = Result ResultObject | MapObject "(addr \<times> real) list" | Array "real list"

type_synonym heap = "object list"

definition alloc :: "heap \<Rightarrow> object \<Rightarrow> heap \<times> addr" where
  "alloc h obj = (h @ [obj], length h)"

definition lookup :: "heap \<Rightarrow> addr \<Rightarrow> object option" where
  "lookup h a = (if a < length h then Some (h ! a) else None)"

text \<open>
  \<^verbatim>\<open>Map.prototype.set\<close>: the value of a key that is present (the same object) is replaced
  in place, a new key is appended. It writes to the heap at the address of the map.
\<close>

definition mapSet :: "heap \<Rightarrow> addr \<Rightarrow> addr \<Rightarrow> real \<Rightarrow> heap option" where
  "mapSet h m key value =
     (case lookup h m of
        Some (MapObject entries) \<Rightarrow>
          Some (h[m := MapObject
            (if key \<in> fst ` set entries
             then map (\<lambda>entry. if fst entry = key then (key, value) else entry) entries
             else entries @ [(key, value)])])
      | _ \<Rightarrow> None)"

text \<open>\<^verbatim>\<open>band[0]\<close> and \<^verbatim>\<open>band[1]\<close> of a key array.\<close>

definition readBand :: "heap \<Rightarrow> addr \<Rightarrow> band option" where
  "readBand h band =
     (case lookup h band of Some (Array [b0, b1]) \<Rightarrow> Some (b0, b1) | _ \<Rightarrow> None)"

text \<open>
  The loop over \<^verbatim>\<open>spectrum.bandPeaks.entries()\<close>, on the entries the input map has when the
  loop starts; \<open>result\<close> is the address of the new result object, and each pass follows
  \<^verbatim>\<open>result.bandPeaks\<close> to the map it writes. \<open>None\<close> is a heap that is not typed as
  the source has it.
\<close>

fun integrateEntries :: "heap \<Rightarrow> addr \<Rightarrow> (addr \<times> real) list \<Rightarrow> heap option" where
  "integrateEntries h result [] = Some h"
| "integrateEntries h result ((band, value) # rest) =
     (case readBand h band of
        None \<Rightarrow> None
      | Some b \<Rightarrow>
          if centerFreq b \<le> 0 then integrateEntries h result rest
          else
            let integratedValue =
                  limitPrecision (fdiv value (fmul (fmul 2 Math_PI) (centerFreq b)))
            in
            (case lookup h result of
               Some (Result r) \<Rightarrow>
                 (case mapSet h (o_bandPeaks r) band integratedValue of
                    None \<Rightarrow> None
                  | Some h' \<Rightarrow> integrateEntries h' result rest)
             | _ \<Rightarrow> None))"

text \<open>
  \<^verbatim>\<open>integrateSpectrum\<close>. The object spread \<^verbatim>\<open>{...spectrum, ...}\<close> allocates a new object
  with the fields of the input, addresses included; \<^verbatim>\<open>new Map()\<close> allocates an empty map.
\<close>

definition integrateSpectrumHeap ::
    "SpectrumCalculationModule \<Rightarrow> heap \<Rightarrow> addr \<Rightarrow> (heap \<times> addr) option" where
  "integrateSpectrumHeap this h spectrum =
     (case lookup h spectrum of
        Some (Result s) \<Rightarrow>
          if \<not> isIntegrationAllowed this then
            Some (alloc h (Result (s\<lparr>o_isValid := False,
              o_errorMessage :=
                Some ''Integration is not allowed when high pass filter is not used''\<rparr>)))
          else if o_quantity s = Displacement then
            Some (alloc h (Result (s\<lparr>o_isValid := False,
              o_errorMessage :=
                Some ''Cannot integrate displacement to prevent double integration''\<rparr>)))
          else
            let newQuantity =
                  (case o_quantity s of
                     Acceleration \<Rightarrow> Velocity
                   | Velocity \<Rightarrow> Displacement
                   | Displacement \<Rightarrow> o_quantity s);
                (h1, newMap) = alloc h (MapObject []);
                (h2, result) = alloc h1 (Result (s\<lparr>o_quantity := newQuantity,
                  o_bandPeaks := newMap, o_isValid := True\<rparr>))
            in
            (case lookup h2 (o_bandPeaks s) of
               Some (MapObject entries) \<Rightarrow>
                 (case integrateEntries h2 result entries of
                    None \<Rightarrow> None
                  | Some h3 \<Rightarrow> Some (h3, result))
             | _ \<Rightarrow> None)
      | _ \<Rightarrow> None)"

text \<open>
  The value that an address of the heap stands for: the \<^typ>\<open>SpectrumResult\<close> of the
  functional model. The keys of a \<^verbatim>\<open>Map\<close> are distinct objects.
\<close>

definition readRaw :: "heap \<Rightarrow> addr option \<Rightarrow> real list option option" where
  "readRaw h raw =
     (case raw of
        None \<Rightarrow> Some None
      | Some a \<Rightarrow> (case lookup h a of Some (Array xs) \<Rightarrow> Some (Some xs) | _ \<Rightarrow> None))"

definition readEntries :: "heap \<Rightarrow> (addr \<times> real) list \<Rightarrow> (band \<times> real) list option" where
  "readEntries h entries =
     (if distinct (map fst entries) \<and> list_all (\<lambda>entry. readBand h (fst entry) \<noteq> None) entries
      then Some (map (\<lambda>entry. (the (readBand h (fst entry)), snd entry)) entries)
      else None)"

definition readResult :: "heap \<Rightarrow> addr \<Rightarrow> SpectrumResult option" where
  "readResult h p =
     (case lookup h p of
        Some (Result s) \<Rightarrow>
          (case lookup h (o_bandPeaks s) of
             Some (MapObject entries) \<Rightarrow>
               (case (readEntries h entries, readRaw h (o_rawSpectrum s)) of
                  (Some bands, Some raw) \<Rightarrow>
                    Some \<lparr>res_maxFrequency = o_maxFrequency s, resolution = o_resolution s,
                      res_quantity = o_quantity s, bandPeaks = bands, isValid = o_isValid s,
                      errorMessage = o_errorMessage s, rawSpectrum = raw\<rparr>
                | _ \<Rightarrow> None)
           | _ \<Rightarrow> None)
      | _ \<Rightarrow> None)"

text \<open>\<^const>\<open>exampleResult\<close> on a heap, at address 3.\<close>

definition exampleHeap :: heap where
  "exampleHeap =
     [Array [0, 0], Array [10, 35], MapObject [(0, 1), (1, 1 / 2)],
      Result \<lparr>o_maxFrequency = 1000, o_resolution = 1, o_quantity = Acceleration,
        o_bandPeaks = 2, o_isValid = True, o_errorMessage = None, o_rawSpectrum = None\<rparr>]"

text \<open>The entries that the loop appends to the new map.\<close>

definition integratedKeys :: "heap \<Rightarrow> (addr \<times> real) list \<Rightarrow> (addr \<times> real) list" where
  "integratedKeys h entries =
     map (\<lambda>entry. (fst entry,
            limitPrecision (integrationQuotient (the (readBand h (fst entry))) (snd entry))))
       (filter (\<lambda>entry. centerFreq (the (readBand h (fst entry))) > 0) entries)"

section \<open>Rounding to doubles\<close>

text \<open>
  The rounded value is within half a quantum of the exact one; a known exponent gives the
  rounded value by evaluation; reals of the form \<open>m * 2 ^ k\<close> with \<open>\<bar>m\<bar> \<le> 2 ^ 53\<close> and
  \<open>- 1074 \<le> k\<close> are doubles, unchanged by rounding; rounding is idempotent, ascending
  on the non-negative reals, and has a relative error of at most \<open>2 ^ - 53\<close> on normal
  numbers, an absolute error of at most \<open>2 ^ - 1075\<close> below them.
\<close>

lemma roundEven_near: "\<bar>of_int (roundEven y) - y\<bar> \<le> 1 / 2"
proof -
  have "of_int \<lfloor>y\<rfloor> \<le> y" "y < of_int \<lfloor>y\<rfloor> + 1" by linarith+
  then show ?thesis by (auto simp: roundEven_def Let_def)
qed

lemma roundEven_of_int [simp]: "roundEven (of_int n) = n"
  by (simp add: roundEven_def)

lemma roundEven_mono:
  assumes "a \<le> b"
  shows "roundEven a \<le> roundEven b"
proof (rule ccontr)
  assume "\<not> roundEven a \<le> roundEven b"
  then have gt: "roundEven b + 1 \<le> roundEven a" by simp
  have 1: "real_of_int (roundEven a) \<le> a + 1 / 2" using roundEven_near [of a] by linarith
  have 2: "b - 1 / 2 \<le> real_of_int (roundEven b)" using roundEven_near [of b] by linarith
  have "real_of_int (roundEven b) + 1 \<le> real_of_int (roundEven a)"
    using gt by linarith
  then have "a = b" using 1 2 assms by linarith
  then show False using gt by simp
qed

lemma binade_bounds:
  assumes "x \<noteq> 0"
  shows "2 powi binade x \<le> \<bar>x\<bar>" and "\<bar>x\<bar> < 2 powi (binade x + 1)"
proof -
  have pos: "0 < \<bar>x\<bar>" using assms by simp
  have "real_of_int (binade x) \<le> log 2 \<bar>x\<bar>" unfolding binade_def by linarith
  then have "2 powr real_of_int (binade x) \<le> \<bar>x\<bar>"
    using le_log_iff [of 2 "\<bar>x\<bar>"] pos by simp
  then show "2 powi binade x \<le> \<bar>x\<bar>"
    by (simp add: powr_real_of_int')
  have "log 2 \<bar>x\<bar> < real_of_int (binade x + 1)" unfolding binade_def by linarith
  then have "\<bar>x\<bar> < 2 powr real_of_int (binade x + 1)"
    using log_less_iff [of 2 "\<bar>x\<bar>"] pos by simp
  then show "\<bar>x\<bar> < 2 powi (binade x + 1)"
    by (simp only: powr_real_of_int' [of 2, simplified])
qed

lemma binade_unique:
  assumes "2 powi e \<le> \<bar>x\<bar>" and "\<bar>x\<bar> < 2 powi (e + 1)"
  shows "binade x = e"
proof -
  have "0 < (2::real) powi e" by simp
  then have pos: "0 < \<bar>x\<bar>" using assms(1) by linarith
  have "2 powr real_of_int e \<le> \<bar>x\<bar>" using assms(1) by (simp add: powr_real_of_int')
  then have 1: "real_of_int e \<le> log 2 \<bar>x\<bar>" using le_log_iff [of 2 "\<bar>x\<bar>"] pos by simp
  have "\<bar>x\<bar> < 2 powr real_of_int (e + 1)"
    using assms(2) by (simp only: powr_real_of_int' [of 2, simplified])
  then have 2: "log 2 \<bar>x\<bar> < real_of_int (e + 1)" using log_less_iff [of 2 "\<bar>x\<bar>"] pos by simp
  show ?thesis unfolding binade_def using 1 2 by linarith
qed

lemma double_eval:
  assumes "2 powi e \<le> \<bar>x\<bar>" and "\<bar>x\<bar> < 2 powi (e + 1)" and "- 1022 \<le> e"
  shows "double x = 2 powi (e - 52) * of_int (roundEven (x / 2 powi (e - 52)))"
proof -
  have "0 < (2::real) powi e" by simp
  then have "0 < \<bar>x\<bar>" using assms(1) by linarith
  then have "x \<noteq> 0" by simp
  moreover have "quantum x = 2 powi (e - 52)"
    using binade_unique [OF assms(1,2)] assms(3) by (simp add: quantum_def max_def)
  ultimately show ?thesis by (simp add: double_def)
qed

lemma quantum_pos: "0 < quantum x"
  by (simp add: quantum_def)

lemma quantum_low: "- 1074 \<le> max (binade x) (- 1022) - 52"
  by simp

lemma scaled_below:
  assumes "x \<noteq> 0"
  shows "\<bar>x / quantum x\<bar> < 2 ^ 53"
proof -
  define E where "E = max (binade x) (- 1022)"
  have "\<bar>x\<bar> < 2 powi (binade x + 1)" using assms by (rule binade_bounds)
  also have "\<dots> \<le> 2 powi (E + 1)"
    by (rule power_int_increasing) (simp_all add: E_def)
  also have "(2::real) powi (E + 1) = 2 powi (E - 52) * 2 ^ 53"
  proof -
    have "E + 1 = (E - 52) + 53" by simp
    then have "(2::real) powi (E + 1) = 2 powi (E - 52) * 2 powi 53"
      by (simp only: power_int_add [of "2::real", simplified])
    then show ?thesis by simp
  qed
  finally have "\<bar>x\<bar> < quantum x * 2 ^ 53" by (simp add: quantum_def E_def)
  then show ?thesis using quantum_pos [of x] by (simp add: pos_divide_less_eq mult.commute)
qed

lemma significand_bound:
  assumes "x \<noteq> 0"
  shows "\<bar>roundEven (x / quantum x)\<bar> \<le> 2 ^ 53"
proof -
  have b: "- (2 ^ 53) \<le> x / quantum x" "x / quantum x \<le> 2 ^ 53"
    using scaled_below [OF assms] by linarith+
  have "roundEven (x / quantum x) \<le> roundEven (of_int (2 ^ 53))"
    by (rule roundEven_mono) (use b in simp)
  moreover have "roundEven (of_int (- (2 ^ 53))) \<le> roundEven (x / quantum x)"
    by (rule roundEven_mono) (use b in simp)
  ultimately show ?thesis unfolding roundEven_of_int by linarith
qed

lemma double_exact_strict:
  assumes x: "x = of_int m * 2 powi k" and m: "\<bar>m\<bar> < 2 ^ 53" and k: "- 1074 \<le> k"
  shows "double x = x"
proof (cases "x = 0")
  case True
  then show ?thesis by (simp add: double_def)
next
  case False
  define E where "E = max (binade x) (- 1022)"
  have "\<bar>x\<bar> = real_of_int \<bar>m\<bar> * 2 powi k" by (simp add: x abs_mult)
  also have "\<dots> < 2 ^ 53 * 2 powi k"
  proof (rule mult_strict_right_mono)
    have "real_of_int \<bar>m\<bar> < real_of_int (2 ^ 53)" using m by (simp only: of_int_less_iff)
    then show "real_of_int \<bar>m\<bar> < 2 ^ 53" by simp
  qed simp
  also have "\<dots> = 2 powi (k + 53)"
    by (simp add: power_int_add mult.commute)
  finally have lt: "\<bar>x\<bar> < 2 powi (k + 53)" .
  have "binade x < k + 53"
  proof (rule ccontr)
    assume "\<not> binade x < k + 53"
    then have "(2::real) powi (k + 53) \<le> 2 powi binade x"
      by (intro power_int_increasing) simp_all
    then show False using binade_bounds(1) [OF False] lt by linarith
  qed
  then have E: "E \<le> k + 52" using k by (simp add: E_def)
  define j where "j = m * 2 ^ nat (k + 52 - E)"
  have "2 powi k = 2 powi (E - 52) * (2::real) powi (k + 52 - E)"
  proof -
    have "k = (E - 52) + (k + 52 - E)" by simp
    then show ?thesis by (metis power_int_add zero_neq_numeral)
  qed
  also have "(2::real) powi (k + 52 - E) = 2 ^ nat (k + 52 - E)"
    using E by (simp add: power_int_def)
  finally have "x = quantum x * of_int j"
    by (simp add: x j_def quantum_def E_def)
  then have "x / quantum x = of_int j" using quantum_pos [of x] by (simp add: field_simps)
  then have "double x = quantum x * of_int j" using False by (simp add: double_def)
  then show ?thesis using \<open>x = quantum x * of_int j\<close> by simp
qed

lemma double_exact:
  assumes x: "x = of_int m * 2 powi k" and m: "\<bar>m\<bar> \<le> 2 ^ 53" and k: "- 1074 \<le> k"
  shows "double x = x"
proof (cases "\<bar>m\<bar> < 2 ^ 53")
  case True
  show ?thesis by (rule double_exact_strict [OF x True k])
next
  case False
  then have "\<bar>m\<bar> = 2 ^ 53" using m by simp
  then consider "m = 2 ^ 53" | "m = - (2 ^ 53)" by linarith
  then obtain m' :: int where m': "m = 2 * m'" "\<bar>m'\<bar> < 2 ^ 53"
  proof cases
    case 1
    then have "m = 2 * 2 ^ 52" "\<bar>(2::int) ^ 52\<bar> < 2 ^ 53" by simp_all
    then show ?thesis using that by blast
  next
    case 2
    then have "m = 2 * (- (2 ^ 52))" "\<bar>- ((2::int) ^ 52)\<bar> < 2 ^ 53" by simp_all
    then show ?thesis using that by blast
  qed
  have "(2::real) powi (k + 1) = 2 powi k * 2"
    by (simp add: power_int_add)
  then have x': "x = of_int m' * 2 powi (k + 1)" by (simp add: x m'(1))
  have k': "- 1074 \<le> k + 1" using k by simp
  show ?thesis by (rule double_exact_strict [OF x' m'(2) k'])
qed

lemma double_idem: "double (double x) = double x"
proof (cases "x = 0")
  case True
  then show ?thesis by (simp add: double_def)
next
  case False
  have "double x = of_int (roundEven (x / quantum x)) * 2 powi (max (binade x) (- 1022) - 52)"
    using False by (simp add: double_def quantum_def mult.commute)
  then show ?thesis
    using significand_bound [OF False] quantum_low by (rule double_exact)
qed

lemma double_nonneg:
  assumes "0 \<le> x"
  shows "0 \<le> double x"
proof (cases "x = 0")
  case True
  then show ?thesis by (simp add: double_def)
next
  case False
  have "0 \<le> x / quantum x" using assms quantum_pos [of x] by simp
  then have "roundEven 0 \<le> roundEven (x / quantum x)"
    by (rule roundEven_mono)
  then have "0 \<le> roundEven (x / quantum x)" by (simp add: roundEven_def)
  then show ?thesis using False quantum_pos [of x] by (simp add: double_def)
qed

lemma double_error:
  assumes "2 powi (- 1022) \<le> \<bar>x\<bar>"
  shows "\<bar>double x - x\<bar> \<le> \<bar>x\<bar> / 2 ^ 53"
proof -
  have "0 < (2::real) powi (- 1022)" by simp
  then have nz: "x \<noteq> 0" using assms by auto
  have "(2::real) powi (- 1022) < 2 powi (binade x + 1)"
    using assms binade_bounds(2) [OF nz] by linarith
  then have "- 1022 < binade x + 1"
    by (metis linorder_not_less power_int_increasing one_le_numeral)
  then have q: "quantum x = 2 powi (binade x - 52)" by (simp add: quantum_def max_def)
  have "double x - x = quantum x * (of_int (roundEven (x / quantum x)) - x / quantum x)"
    using nz quantum_pos [of x] by (simp add: double_def field_simps)
  then have "\<bar>double x - x\<bar> = quantum x * \<bar>of_int (roundEven (x / quantum x)) - x / quantum x\<bar>"
    using quantum_pos [of x] by (simp add: abs_mult)
  also have "\<dots> \<le> quantum x * (1 / 2)"
    using quantum_pos [of x] roundEven_near [of "x / quantum x"]
    by (intro mult_left_mono) simp_all
  also have "quantum x * (1 / 2) = 2 powi binade x / 2 ^ 53"
  proof -
    have "(2::real) powi binade x = 2 powi (binade x - 52) * 2 powi 52"
      by (metis diff_add_cancel power_int_add zero_neq_numeral)
    then show ?thesis by (simp add: q)
  qed
  also have "\<dots> \<le> \<bar>x\<bar> / 2 ^ 53"
    using binade_bounds(1) [OF nz] by (simp add: divide_right_mono)
  finally show ?thesis .
qed

lemma binade_mono:
  assumes "0 < x" and "x \<le> y"
  shows "binade x \<le> binade y"
proof -
  have "log 2 \<bar>x\<bar> \<le> log 2 \<bar>y\<bar>" using assms by simp
  then show ?thesis unfolding binade_def by (rule floor_mono)
qed

lemma quantum_scale: "quantum x * 2 ^ 53 = 2 powi (max (binade x) (- 1022) + 1)"
proof -
  define E where "E = max (binade x) (- 1022)"
  have "E + 1 = (E - 52) + 53" by simp
  then have "(2::real) powi (E + 1) = 2 powi (E - 52) * 2 powi 53"
    by (simp only: power_int_add [of "2::real", simplified])
  then show ?thesis by (simp add: quantum_def E_def)
qed

lemma double_upper:
  assumes "0 < x"
  shows "double x \<le> 2 powi (max (binade x) (- 1022) + 1)"
proof -
  have nz: "x \<noteq> 0" using assms by simp
  have "roundEven (x / quantum x) \<le> 2 ^ 53"
    using significand_bound [OF nz] by linarith
  then have "real_of_int (roundEven (x / quantum x)) \<le> real_of_int (2 ^ 53)"
    by (simp only: of_int_le_iff)
  then have "quantum x * real_of_int (roundEven (x / quantum x)) \<le> quantum x * 2 ^ 53"
    using quantum_pos [of x] by (intro mult_left_mono) simp_all
  also have "\<dots> = 2 powi (max (binade x) (- 1022) + 1)" by (rule quantum_scale)
  finally show ?thesis using nz by (simp add: double_def)
qed

lemma double_lower:
  assumes "0 < x" and "- 1022 \<le> binade x"
  shows "2 powi binade x \<le> double x"
proof -
  have nz: "x \<noteq> 0" using assms by simp
  have q: "quantum x = 2 powi (binade x - 52)" using assms(2) by (simp add: quantum_def max_def)
  have split: "(2::real) powi binade x = quantum x * 2 ^ 52"
  proof -
    have "(2::real) powi binade x = 2 powi (binade x - 52) * 2 powi 52"
      by (metis diff_add_cancel power_int_add zero_neq_numeral)
    then show ?thesis by (simp add: q)
  qed
  have "quantum x * 2 ^ 52 \<le> x" using binade_bounds(1) [OF nz] assms(1) split by simp
  then have "2 ^ 52 \<le> x / quantum x"
    using quantum_pos [of x] by (simp add: pos_le_divide_eq mult.commute)
  then have "roundEven (of_int (2 ^ 52)) \<le> roundEven (x / quantum x)"
    by (intro roundEven_mono) simp
  then have "2 ^ 52 \<le> roundEven (x / quantum x)" by (simp only: roundEven_of_int)
  then have "real_of_int (2 ^ 52) \<le> real_of_int (roundEven (x / quantum x))"
    by (simp only: of_int_le_iff)
  then have "quantum x * 2 ^ 52 \<le> quantum x * real_of_int (roundEven (x / quantum x))"
    using quantum_pos [of x] by (intro mult_left_mono) simp_all
  then show ?thesis using nz split by (simp add: double_def)
qed

lemma double_mono:
  assumes "0 \<le> x" and "x \<le> y"
  shows "double x \<le> double y"
proof (cases "x = 0")
  case True
  then show ?thesis using double_nonneg [of y] assms by (simp add: double_def)
next
  case False
  then have x: "0 < x" and y: "0 < y" using assms by simp_all
  define Ex where "Ex = max (binade x) (- 1022)"
  define Ey where "Ey = max (binade y) (- 1022)"
  have le: "Ex \<le> Ey" using binade_mono [OF x assms(2)] by (simp add: Ex_def Ey_def)
  show ?thesis
  proof (cases "Ex = Ey")
    case True
    then have q: "quantum x = quantum y" by (simp add: quantum_def Ex_def Ey_def)
    have "x / quantum y \<le> y / quantum y"
      using assms(2) quantum_pos [of y] by (simp add: divide_right_mono)
    then have "roundEven (x / quantum y) \<le> roundEven (y / quantum y)" by (rule roundEven_mono)
    then have "real_of_int (roundEven (x / quantum y)) \<le> real_of_int (roundEven (y / quantum y))"
      by (simp only: of_int_le_iff)
    then have "quantum y * real_of_int (roundEven (x / quantum y))
        \<le> quantum y * real_of_int (roundEven (y / quantum y))"
      using quantum_pos [of y] by (intro mult_left_mono) simp_all
    then show ?thesis using x y q by (simp add: double_def)
  next
    case False
    then have lt: "Ex + 1 \<le> Ey" using le by simp
    then have by': "binade y = Ey" "- 1022 \<le> binade y"
      by (simp_all add: Ey_def Ex_def max_def split: if_splits)
    have "double x \<le> 2 powi (Ex + 1)" unfolding Ex_def using x by (rule double_upper)
    also have "\<dots> \<le> 2 powi Ey" using lt by (intro power_int_increasing) simp_all
    also have "\<dots> \<le> double y" using double_lower [OF y by'(2)] by'(1) by simp
    finally show ?thesis .
  qed
qed

lemma fadd_ge:
  assumes "0 \<le> s" and "0 \<le> b" and "double s = s"
  shows "s \<le> fadd s b"
proof -
  have "double s \<le> double (s + b)" using assms(1,2) by (intro double_mono) simp_all
  then show ?thesis using assms(3) by (simp add: fadd_def)
qed

lemma quantum_le:
  assumes "x \<noteq> 0"
  shows "quantum x \<le> max \<bar>x\<bar> (2 powi (- 1022)) / 2 ^ 52"
proof (cases "- 1022 \<le> binade x")
  case True
  then have q: "quantum x = 2 powi (binade x - 52)" by (simp add: quantum_def max_absorb1)
  have "(2::real) powi binade x = 2 powi (binade x - 52) * 2 powi 52"
    by (metis diff_add_cancel power_int_add zero_neq_numeral)
  then have "quantum x = 2 powi binade x / 2 ^ 52" by (simp add: q)
  also have "\<dots> \<le> \<bar>x\<bar> / 2 ^ 52"
    using binade_bounds(1) [OF assms] by (simp add: divide_right_mono)
  also have "\<dots> \<le> max \<bar>x\<bar> (2 powi (- 1022)) / 2 ^ 52"
    by (simp add: divide_right_mono)
  finally show ?thesis .
next
  case False
  then have q: "quantum x = 2 powi (- 1022 - 52)" by (simp add: quantum_def max_def)
  have "(2::real) powi (- 1022) = 2 powi (- 1022 - 52) * 2 powi 52"
    by (metis diff_add_cancel power_int_add zero_neq_numeral)
  then have "quantum x = 2 powi (- 1022) / 2 ^ 52" by (simp add: q)
  also have "\<dots> \<le> max \<bar>x\<bar> (2 powi (- 1022)) / 2 ^ 52"
    by (intro divide_right_mono) simp_all
  finally show ?thesis .
qed

lemma double_near: "\<bar>double x - x\<bar> \<le> quantum x / 2"
proof (cases "x = 0")
  case True
  then show ?thesis using quantum_pos [of x] by (simp add: double_def)
next
  case nz: False
  have "double x - x = quantum x * (of_int (roundEven (x / quantum x)) - x / quantum x)"
    using nz quantum_pos [of x] by (simp add: double_def field_simps)
  then have "\<bar>double x - x\<bar> = quantum x * \<bar>of_int (roundEven (x / quantum x)) - x / quantum x\<bar>"
    using quantum_pos [of x] by (simp add: abs_mult)
  also have "\<dots> \<le> quantum x * (1 / 2)"
    using quantum_pos [of x] roundEven_near [of "x / quantum x"]
    by (intro mult_left_mono) simp_all
  finally show ?thesis by simp
qed

lemma double_error_max: "\<bar>double x - x\<bar> \<le> max \<bar>x\<bar> (2 powi (- 1022)) / 2 ^ 53"
proof (cases "x = 0")
  case True
  then show ?thesis by (simp add: double_def)
next
  case False
  have "\<bar>double x - x\<bar> \<le> quantum x / 2" by (rule double_near)
  also have "\<dots> \<le> (max \<bar>x\<bar> (2 powi (- 1022)) / 2 ^ 52) / 2"
    using quantum_le [OF False] by (intro divide_right_mono) simp_all
  finally show ?thesis by simp
qed

lemma fadd_progress:
  assumes s: "0 \<le> s" and lt: "s < mx" and wide: "mx \<le> 2 ^ 50 * br"
    and low: "2 powi (- 1074) \<le> br"
  shows "s + br / 2 \<le> fadd s br"
proof -
  have "0 < (2::real) powi (- 1074)" by simp
  then have br: "0 < br" using low by linarith
  define x where "x = s + br"
  have x: "0 < x" using s br by (simp add: x_def)
  have "max \<bar>x\<bar> (2 powi (- 1022)) / 2 ^ 53 \<le> br / 2"
  proof (cases "2 powi (- 1022) \<le> x")
    case True
    have "x \<le> 2 ^ 50 * br + br" using lt wide by (simp add: x_def)
    then have "x / 2 ^ 53 \<le> (2 ^ 50 * br + br) / 2 ^ 53" by (simp add: divide_right_mono)
    also have "\<dots> \<le> br / 2" using br by (simp add: field_simps)
    finally show ?thesis using True x by (simp add: max_def)
  next
    case False
    have "(2::real) powi (- 1074) = 2 powi (- 1022) * 2 powi (- 52)"
      by (simp only: power_int_add [of "2::real", simplified, symmetric]) simp
    then have "(2::real) powi (- 1022) / 2 ^ 53 = 2 powi (- 1074) / 2"
      by (simp add: power_int_minus field_simps)
    then show ?thesis using False x low by (simp add: max_def)
  qed
  then have "\<bar>double x - x\<bar> \<le> br / 2" using double_error_max [of x] by linarith
  then show ?thesis unfolding fadd_def x_def by linarith
qed

section \<open>Literals and the rounding to ten decimals\<close>

lemma double_zero [simp]: "double 0 = 0"
  by (simp add: double_def)

lemma double_quarter: "double (1 / 4) = 1 / 4"
  by (subst double_eval [where e = "- 2"]) (simp_all add: roundEven_def)

lemma double_tenth: "double (1 / 10) = 3602879701896397 / 2 ^ 55"
  by (subst double_eval [where e = "- 4"]) (simp_all add: roundEven_def)

lemma double_four_tenths: "double (4 / 10) = 3602879701896397 / 2 ^ 53"
  by (subst double_eval [where e = "- 2"]) (simp_all add: roundEven_def)

lemma double_256: "double 2.56 = 5764607523034235 / 2 ^ 51"
  by (subst double_eval [where e = 1]) (simp_all add: roundEven_def)

lemma toFixed10_zero: "toFixed10 0 = 0"
  by (simp add: toFixed10_def)



lemma limitPrecision_zero: "limitPrecision 0 = 0"
  by (simp add: limitPrecision_def toFixed10_zero)

lemma limitPrecision_quarter: "limitPrecision (1 / 4) = 1 / 4"
  by (simp add: limitPrecision_def toFixed10_def double_quarter)


section \<open>Properties of integrateSpectrum\<close>

lemma integrateBand_entry:
  "integrateBand entry result =
     result\<lparr>bandPeaks := bandPeaks result @ integratedEntries [entry]\<rparr>"
  by (simp add: integrateBand_def integratedEntries_def integrationQuotient_def Let_def)

lemma integratedEntries_Cons:
  "integratedEntries (entry # entries) = integratedEntries [entry] @ integratedEntries entries"
  by (simp add: integratedEntries_def)

lemma fold_integrateBand:
  "fold integrateBand entries result =
     result\<lparr>bandPeaks := bandPeaks result @ integratedEntries entries\<rparr>"
proof (induction entries arbitrary: result)
  case Nil
  show ?case by (simp add: integratedEntries_def)
next
  case (Cons entry entries)
  have "fold integrateBand (entry # entries) result =
          fold integrateBand entries (integrateBand entry result)"
    by simp
  also have "\<dots> = (integrateBand entry result)
       \<lparr>bandPeaks := bandPeaks (integrateBand entry result) @ integratedEntries entries\<rparr>"
    by (rule Cons.IH)
  also have "\<dots> = result\<lparr>bandPeaks := bandPeaks result @ integratedEntries (entry # entries)\<rparr>"
    unfolding integrateBand_entry integratedEntries_Cons [of entry entries] by simp
  finally show ?case .
qed

subsection \<open>A concrete integration\<close>


lemma sum_10_35: "fadd 10 35 = 45"
  unfolding fadd_def
  by (subst double_eval [where e = 5]) (simp_all add: roundEven_def)

lemma centerFreq_10_35: "centerFreq (10, 35) = 45 / 2"
  unfolding centerFreq_def fst_conv snd_conv sum_10_35 fdiv_def
  by (subst double_eval [where e = 4]) (simp_all add: roundEven_def)

lemma two_pi: "fmul 2 Math_PI = 884279719003555 / 2 ^ 47"
  unfolding fmul_def Math_PI_def
  by (subst double_eval [where e = 2]) (simp_all add: roundEven_def)

lemma two_pi_centre: "fmul (fmul 2 Math_PI) (45 / 2) = 4974073419394997 / 2 ^ 45"
  unfolding two_pi unfolding fmul_def
  by (subst double_eval [where e = 7]) (simp_all add: roundEven_def)



lemma quotient_100692: "integrationQuotient (10, 35) 100692 = 1566254756484939 / 2 ^ 41"
  unfolding integrationQuotient_def centerFreq_10_35 two_pi_centre unfolding fdiv_def
  by (subst double_eval [where e = 9]) (simp_all add: roundEven_def)

lemma integrated_100692:
  "limitPrecision (integrationQuotient (10, 35) 100692) = double (712.2502013248)"
proof -
  have "toFixed10 (1566254756484939 / 2 ^ 41) = 712.2502013248"
    by (simp add: toFixed10_def)
  then show ?thesis by (simp only: limitPrecision_def quotient_100692)
qed





text \<open>The flag \<^verbatim>\<open>isValid\<close> of the input is overwritten on every path and read on none.\<close>

lemma integrateSpectrum_flag:
  "integrateSpectrum this (spectrum\<lparr>isValid := b\<rparr>) = integrateSpectrum this spectrum"
  by (cases "res_quantity spectrum")
    (simp_all add: integrateSpectrum_def fold_integrateBand Let_def)

text \<open>
  Claim C9. \<^verbatim>\<open>integrateSpectrum\<close> does not look at the validity flag of its input: an input
  with \<open>isValid = False\<close>, integrated by a module with \<open>highPassFrequency > 0\<close> from
  Acceleration or Velocity, comes back with \<open>isValid = True\<close>, and the result is the same
  whatever the flag of the input was.
\<close>

theorem integrateSpectrum_ignores_validity:
  assumes "\<not> isValid spectrum"
    and "highPassFrequency this > 0"
    and "res_quantity spectrum = Acceleration \<or> res_quantity spectrum = Velocity"
  shows "isValid (integrateSpectrum this spectrum) \<and>
    integrateSpectrum this (spectrum\<lparr>isValid := b\<rparr>) = integrateSpectrum this spectrum"
  using assms integrateSpectrum_flag
  by (auto simp: integrateSpectrum_def isIntegrationAllowed_def fold_integrateBand Let_def)

theorem integrateSpectrum_ignores_validity_witness:
  "\<not> isValid (exampleResult\<lparr>isValid := False\<rparr>) \<and>
   highPassFrequency integrationModule > 0 \<and>
   (res_quantity (exampleResult\<lparr>isValid := False\<rparr>) = Acceleration \<or>
    res_quantity (exampleResult\<lparr>isValid := False\<rparr>) = Velocity) \<and>
   isValid (integrateSpectrum integrationModule (exampleResult\<lparr>isValid := False\<rparr>)) \<and>
   integrateSpectrum integrationModule (exampleResult\<lparr>isValid := False, isValid := True\<rparr>) =
     integrateSpectrum integrationModule (exampleResult\<lparr>isValid := False\<rparr>)"
  using integrateSpectrum_ignores_validity
    [of "exampleResult\<lparr>isValid := False\<rparr>" integrationModule True]
  by (simp add: integrationModule_def initialModule_def exampleResult_def)

subsection \<open>The quantity state machine\<close>

lemma integrateSpectrum_quantity:
  "highPassFrequency this > 0 \<Longrightarrow> res_quantity spectrum \<noteq> Displacement \<Longrightarrow>
   isValid (integrateSpectrum this spectrum) \<and>
   res_quantity (integrateSpectrum this spectrum) =
     (if res_quantity spectrum = Acceleration then Velocity else Displacement)"
  by (cases "res_quantity spectrum")
    (simp_all add: integrateSpectrum_def isIntegrationAllowed_def fold_integrateBand Let_def)

lemma integrateSpectrum_displacement:
  "highPassFrequency this > 0 \<Longrightarrow> res_quantity spectrum = Displacement \<Longrightarrow>
   integrateSpectrum this spectrum =
     spectrum\<lparr>isValid := False,
       errorMessage := Some ''Cannot integrate displacement to prevent double integration''\<rparr>"
  by (simp add: integrateSpectrum_def isIntegrationAllowed_def)

lemma integrate_twice:
  assumes "highPassFrequency this > 0" and "res_quantity spectrum = Acceleration"
  shows "isValid (integrateSpectrum this (integrateSpectrum this spectrum)) \<and>
    res_quantity (integrateSpectrum this (integrateSpectrum this spectrum)) = Displacement"
proof -
  have 1: "res_quantity (integrateSpectrum this spectrum) = Velocity"
    using integrateSpectrum_quantity [of this spectrum] assms by simp
  show ?thesis
    using integrateSpectrum_quantity [of this "integrateSpectrum this spectrum"] assms 1
    by simp
qed

lemma integrate_thrice:
  assumes "highPassFrequency this > 0" and "res_quantity spectrum = Acceleration"
  shows "\<not> isValid (integrateSpectrum this (integrateSpectrum this (integrateSpectrum this spectrum))) \<and>
    errorMessage (integrateSpectrum this (integrateSpectrum this (integrateSpectrum this spectrum)))
      = Some ''Cannot integrate displacement to prevent double integration''"
  using integrate_twice [OF assms]
    integrateSpectrum_displacement
      [of this "integrateSpectrum this (integrateSpectrum this spectrum)"] assms(1)
  by simp

text \<open>
  The reason of the rejected integration begins with a capital letter; \<^const>\<open>sublist\<close> is
  the containment of strings, letter for letter.
\<close>

lemma message_capital:
  "sublist ''Cannot integrate displacement''
     ''Cannot integrate displacement to prevent double integration''"
  by code_simp

lemma message_lower:
  "\<not> sublist ''cannot integrate displacement''
     ''Cannot integrate displacement to prevent double integration''"
  by code_simp

text \<open>
  Claim C3, as amended. For a valid Acceleration result and a module with
  \<open>highPassFrequency > 0\<close>, two integrations reach Displacement and the third returns an
  invalid result whose reason contains \<open>Cannot integrate displacement\<close>, with the capital
  letter the source writes.
\<close>

theorem triple_integration_rejected:
  assumes "highPassFrequency this > 0" and "isValid spectrum"
    and "res_quantity spectrum = Acceleration"
  shows "res_quantity (integrateSpectrum this (integrateSpectrum this spectrum)) = Displacement \<and>
    \<not> isValid (integrateSpectrum this (integrateSpectrum this (integrateSpectrum this spectrum))) \<and>
    (\<exists>reason.
       errorMessage (integrateSpectrum this (integrateSpectrum this (integrateSpectrum this spectrum)))
         = Some reason \<and>
       sublist ''Cannot integrate displacement'' reason)"
  using integrate_twice [OF assms(1,3)] integrate_thrice [OF assms(1,3)] message_capital
  by simp

theorem triple_integration_rejected_witness:
  "highPassFrequency integrationModule > 0 \<and> isValid exampleResult \<and>
   res_quantity exampleResult = Acceleration \<and>
   res_quantity (integrateSpectrum integrationModule
     (integrateSpectrum integrationModule exampleResult)) = Displacement \<and>
   \<not> isValid (integrateSpectrum integrationModule (integrateSpectrum integrationModule
     (integrateSpectrum integrationModule exampleResult)))"
  using triple_integration_rejected [of integrationModule exampleResult]
  by (simp add: integrationModule_def initialModule_def exampleResult_def)

text \<open>
  Claim C3 as stated fails on the letter case: the reason of the third integration does not
  contain \<open>cannot integrate displacement\<close>.
\<close>

theorem triple_integration_reason_counterexample:
  "highPassFrequency integrationModule > 0 \<and> isValid exampleResult \<and>
   res_quantity exampleResult = Acceleration \<and>
   errorMessage (integrateSpectrum integrationModule (integrateSpectrum integrationModule
     (integrateSpectrum integrationModule exampleResult)))
     = Some ''Cannot integrate displacement to prevent double integration'' \<and>
   \<not> sublist ''cannot integrate displacement''
     (the (errorMessage (integrateSpectrum integrationModule
       (integrateSpectrum integrationModule
         (integrateSpectrum integrationModule exampleResult)))))"
proof -
  have h: "highPassFrequency integrationModule > 0" "res_quantity exampleResult = Acceleration"
    "isValid exampleResult"
    by (simp_all add: integrationModule_def initialModule_def exampleResult_def)
  show ?thesis
    using integrate_thrice [OF h(1,2)] h message_lower by simp
qed

section \<open>Properties of calculatePeakInBand\<close>

lemma findBand_map_of:
  "findBand entries startFreq endFreq =
     (case map_of entries (startFreq, endFreq) of Some value \<Rightarrow> value | None \<Rightarrow> - 1)"
  by (induction entries startFreq endFreq rule: findBand.induct) (auto simp: prod_eq_iff)

text \<open>
  Claim C7, as amended. For a valid result, \<^verbatim>\<open>calculatePeakInBand\<close> returns the stored peak
  of the first entry, in insertion order, whose key equals \<open>(startFreq, endFreq)\<close>, and the
  sentinel \<open>-1\<close> when there is none; for an invalid result it returns \<open>-1\<close> whatever the
  band mapping holds. It never reads the retained spectrum.
\<close>

theorem calculatePeakInBand_stored:
  "calculatePeakInBand spectrum startFreq endFreq =
     (if isValid spectrum then
        (case map_of (bandPeaks spectrum) (startFreq, endFreq) of
           Some value \<Rightarrow> value
         | None \<Rightarrow> - 1)
      else - 1) \<and>
   calculatePeakInBand (spectrum\<lparr>rawSpectrum := raw\<rparr>) startFreq endFreq =
     calculatePeakInBand spectrum startFreq endFreq"
  by (simp add: calculatePeakInBand_def findBand_map_of)

theorem calculatePeakInBand_stored_witness:
  "calculatePeakInBand exampleResult 10 35 = 1 / 2 \<and>
   calculatePeakInBand exampleResult 10 36 = - 1 \<and>
   calculatePeakInBand (exampleResult\<lparr>rawSpectrum := Some [7]\<rparr>) 10 35 = 1 / 2"
  using calculatePeakInBand_stored [of exampleResult 10 35 "Some [7]"]
    calculatePeakInBand_stored [of exampleResult 10 36 "Some [7]"]
  by (simp add: exampleResult_def)

text \<open>
  Claim C7 as stated fails on an invalid result that still carries its bands, such as the one
  \<^verbatim>\<open>integrateSpectrum\<close> returns from a module without a high-pass filter: the key
  \<open>(10, 35)\<close> is in the mapping with the peak \<open>1 / 2\<close>, and the query answers \<open>-1\<close>.
\<close>

theorem calculatePeakInBand_invalid_counterexample:
  "((10, 35), 1 / 2) \<in> set (bandPeaks (integrateSpectrum initialModule exampleResult)) \<and>
   calculatePeakInBand (integrateSpectrum initialModule exampleResult) 10 35 = - 1 \<and>
   calculatePeakInBand (integrateSpectrum initialModule exampleResult) 10 35 \<noteq> 1 / 2"
  by (simp add: integrateSpectrum_def isIntegrationAllowed_def initialModule_def
      exampleResult_def calculatePeakInBand_def)

section \<open>Properties of calculateSpectrum\<close>

subsection \<open>The padded length\<close>

lemma pow2_and_pred: "((2::int) ^ k AND (2 ^ k - 1)) = 0"
proof -
  have "(2::int) ^ k - 1 = mask k" by (simp add: mask_eq_exp_minus_1)
  then show ?thesis
    by (auto intro!: bit_eqI simp: bit_and_iff bit_exp_iff bit_mask_iff)
qed

lemma nextPower_loop:
  "\<exists>k. while_option (\<lambda>power. power < n) (\<lambda>power. power * 2) (1::nat) = Some (2 ^ k) \<and> n \<le> 2 ^ k"
proof -
  have "\<exists>t. while_option (\<lambda>power. power < n) (\<lambda>power. power * 2) (1::nat) = Some t"
    by (rule measure_while_option_Some [where P = "\<lambda>p. 1 \<le> p" and f = "\<lambda>p. n - p"]) auto
  then obtain t where t: "while_option (\<lambda>power. power < n) (\<lambda>power. power * 2) (1::nat) = Some t"
    by blast
  have "\<exists>k. t = 2 ^ k"
  proof (rule while_option_rule [where P = "\<lambda>p. \<exists>k. p = 2 ^ k", OF _ t])
    show "\<exists>k. (1::nat) = 2 ^ k" by (rule exI [of _ 0]) simp
  next
    fix s :: nat
    assume "\<exists>k. s = 2 ^ k"
    then obtain k where "s = 2 ^ k" by blast
    then have "s * 2 = 2 ^ Suc k" by simp
    then show "\<exists>k. s * 2 = 2 ^ k" by blast
  qed
  moreover have "n \<le> t" using while_option_stop [OF t] by simp
  ultimately show ?thesis using t by blast
qed

lemma and_pred_small:
  assumes "(int n AND (int n - 1)) \<noteq> 0"
  shows "3 \<le> n"
proof (rule ccontr)
  assume "\<not> 3 \<le> n"
  then have "n = 0 \<or> n = 1 \<or> n = 2" by arith
  then show False using assms by auto
qed

lemma getNextPowerOfTwo_total:
  "\<exists>p. getNextPowerOfTwo n = Some p \<and> n \<le> p \<and> (2 \<le> n \<longrightarrow> FFT p = Inr ())"
proof (cases "(int n AND (int n - 1)) = 0")
  case True
  then show ?thesis by (simp add: getNextPowerOfTwo_def FFT_def)
next
  case False
  obtain k where k: "while_option (\<lambda>power. power < n) (\<lambda>power. power * 2) (1::nat) = Some (2 ^ k)"
      "n \<le> 2 ^ k"
    using nextPower_loop [of n] by blast
  have "3 \<le> n" using False by (rule and_pred_small)
  then have big: "\<not> (2::nat) ^ k \<le> 1" using k(2) by linarith
  have "(int (2 ^ k) AND (int (2 ^ k) - 1)) = 0"
    using pow2_and_pred [of k] by simp
  then have "FFT (2 ^ k) = Inr ()"
    using big unfolding FFT_def by simp
  then show ?thesis using False k by (simp add: getNextPowerOfTwo_def)
qed

subsection \<open>The band loop\<close>

text \<open>
  After \<open>k\<close> passes the loop holds \<open>bandStart this k\<close> and the first \<open>k\<close> entries.
  A loop that ends has made a number \<open>n\<close> of passes with every start before the
  \<open>n\<close>-th below \<open>maxFrequency\<close>. The starts are doubles that never descend, and in a
  loop that ends they ascend: a start that the addition of \<open>bandRange\<close> leaves unchanged
  stays for ever. The loop ends when \<open>maxFrequency\<close> is at most \<open>2 ^ 50\<close> times
  \<open>bandRange\<close>: every pass then advances the start by at least half of \<open>bandRange\<close>.
\<close>

lemma bandStart_0: "bandStart this 0 = minFrequency this"
  by (simp add: bandStart_def)

lemma bandStart_Suc: "bandStart this (Suc k) = fadd (bandStart this k) (bandRange this)"
  by (simp add: bandStart_def)

lemma bandStep_iterate:
  "(bandStep this spectrum res ^^ k) (minFrequency this, []) =
     (bandStart this k, map (bandEntry this spectrum res) [0..<k])"
proof (induction k)
  case 0
  show ?case by (simp add: bandStart_0)
next
  case (Suc k)
  have "(bandStep this spectrum res ^^ Suc k) (minFrequency this, []) =
      bandStep this spectrum res (bandStart this k, map (bandEntry this spectrum res) [0..<k])"
    by (simp add: Suc.IH)
  also have "\<dots> = (bandStart this (Suc k),
      map (bandEntry this spectrum res) [0..<k] @ [bandEntry this spectrum res k])"
    by (simp add: bandStep_def bandEntry_def Let_def bandStart_Suc)
  finally show ?case by simp
qed

lemma while_option_iterates:
  assumes "while_option b c s = Some t"
  shows "\<exists>k. t = (c ^^ k) s \<and> \<not> b ((c ^^ k) s) \<and> (\<forall>i<k. b ((c ^^ i) s))"
proof -
  define k where "k = (LEAST k. \<not> b ((c ^^ k) s))"
  have ex: "\<exists>k. \<not> b ((c ^^ k) s)" and t: "t = (c ^^ k) s"
    using assms unfolding while_option_def k_def by (auto split: if_splits)
  have "\<not> b ((c ^^ k) s)" unfolding k_def using ex by (rule LeastI_ex)
  moreover have "b ((c ^^ i) s)" if "i < k" for i
    using not_less_Least [of i "\<lambda>k. \<not> b ((c ^^ k) s)"] that unfolding k_def by blast
  ultimately show ?thesis using t by blast
qed

lemma bandLoop_Some:
  assumes "bandLoop this spectrum res = Some bands"
  shows "\<exists>n. bands = map (bandEntry this spectrum res) [0..<n] \<and>
    \<not> bandStart this n < maxFrequency this \<and> (\<forall>i<n. bandStart this i < maxFrequency this)"
proof -
  from assms obtain t where
    t: "while_option (\<lambda>st. fst st < maxFrequency this) (bandStep this spectrum res)
          (minFrequency this, []) = Some t" and b: "bands = snd t"
    by (auto simp: bandLoop_def)
  from while_option_iterates [OF t] obtain n where
    n: "t = (bandStep this spectrum res ^^ n) (minFrequency this, [])"
       "\<not> fst ((bandStep this spectrum res ^^ n) (minFrequency this, [])) < maxFrequency this"
       "\<forall>i<n. fst ((bandStep this spectrum res ^^ i) (minFrequency this, [])) < maxFrequency this"
    by blast
  show ?thesis
    using n b unfolding bandStep_iterate by (intro exI [of _ n]) simp
qed

lemma while_option_steps:
  assumes "\<not> b ((c ^^ k) s)" and "\<forall>i<k. b ((c ^^ i) s)"
  shows "while_option b c s = Some ((c ^^ k) s)"
proof -
  have "(LEAST k. \<not> b ((c ^^ k) s)) = k"
  proof (rule Least_equality)
    show "\<not> b ((c ^^ k) s)" by (rule assms(1))
  next
    fix y
    assume "\<not> b ((c ^^ y) s)"
    then show "k \<le> y" using assms(2) by (meson not_le_imp_less)
  qed
  then show ?thesis using assms(1) unfolding while_option_def by auto
qed

lemma bandLoop_steps:
  assumes "\<not> bandStart this n < maxFrequency this"
    and "\<forall>i<n. bandStart this i < maxFrequency this"
  shows "bandLoop this spectrum res = Some (map (bandEntry this spectrum res) [0..<n])"
proof -
  have "while_option (\<lambda>st. fst st < maxFrequency this) (bandStep this spectrum res)
      (minFrequency this, []) =
      Some ((bandStep this spectrum res ^^ n) (minFrequency this, []))"
    by (rule while_option_steps) (simp_all add: bandStep_iterate assms)
  then show ?thesis by (simp add: bandLoop_def bandStep_iterate)
qed

lemma bandStart_double:
  assumes "double (minFrequency this) = minFrequency this"
  shows "double (bandStart this k) = bandStart this k"
  using assms by (cases k) (simp_all add: bandStart_0 bandStart_Suc fadd_def double_idem)

lemma bandStart_nonneg:
  assumes "0 \<le> minFrequency this" and "0 < bandRange this"
  shows "0 \<le> bandStart this k"
proof (induction k)
  case 0
  show ?case using assms(1) by (simp add: bandStart_0)
next
  case (Suc k)
  have "0 \<le> double (bandStart this k + bandRange this)"
    using Suc assms(2) by (intro double_nonneg) simp
  then show ?case by (simp add: bandStart_Suc fadd_def)
qed

lemma bandStart_step:
  assumes "0 \<le> minFrequency this" and "0 < bandRange this"
    and "double (minFrequency this) = minFrequency this"
  shows "bandStart this k \<le> bandStart this (Suc k)"
  unfolding bandStart_Suc
  using bandStart_nonneg [OF assms(1,2)] assms(2) bandStart_double [OF assms(3)]
  by (intro fadd_ge) simp_all

lemma bandStart_ge_min:
  assumes "0 \<le> minFrequency this" and "0 < bandRange this"
    and "double (minFrequency this) = minFrequency this"
  shows "minFrequency this \<le> bandStart this k"
proof (induction k)
  case 0
  show ?case by (simp add: bandStart_0)
next
  case (Suc k)
  then show ?case using bandStart_step [OF assms, of k] by linarith
qed

lemma bandStart_stuck:
  assumes "bandStart this (Suc i) = bandStart this i"
  shows "bandStart this (i + j) = bandStart this i"
proof (induction j)
  case 0
  show ?case by simp
next
  case (Suc j)
  have "bandStart this (i + Suc j) = fadd (bandStart this (i + j)) (bandRange this)"
    by (simp add: bandStart_Suc)
  also have "\<dots> = bandStart this (Suc i)" by (simp add: Suc bandStart_Suc)
  finally show ?case using assms by simp
qed

lemma bandStart_strict:
  assumes "0 \<le> minFrequency this" and "0 < bandRange this"
    and "double (minFrequency this) = minFrequency this"
    and "\<not> bandStart this n < maxFrequency this"
    and "bandStart this i < maxFrequency this" and "i < n"
  shows "bandStart this i < bandStart this (Suc i)"
proof (rule ccontr)
  assume "\<not> bandStart this i < bandStart this (Suc i)"
  then have "bandStart this (Suc i) = bandStart this i"
    using bandStart_step [OF assms(1-3), of i] by linarith
  then have "bandStart this (i + (n - i)) = bandStart this i" by (rule bandStart_stuck)
  then have "bandStart this n = bandStart this i" using assms(6) by simp
  then show False using assms(4,5) by simp
qed

lemma bandLoop_terminates:
  assumes mn: "0 \<le> minFrequency this"
    and wide: "maxFrequency this \<le> 2 ^ 50 * bandRange this"
    and low: "2 powi (- 1074) \<le> bandRange this"
  shows "\<exists>bands. bandLoop this spectrum res = Some bands"
proof -
  have "0 < (2::real) powi (- 1074)" by simp
  then have br: "0 < bandRange this" using low by linarith
  define f where
    "f = (\<lambda>st :: real \<times> (band \<times> real) list.
            nat \<lceil>2 * (maxFrequency this - fst st) / bandRange this\<rceil>)"
  have step: "0 \<le> fst (bandStep this spectrum res st) \<and> f (bandStep this spectrum res st) < f st"
    if P: "0 \<le> fst st" and b: "fst st < maxFrequency this" for st
  proof -
    define s where "s = fst st"
    have g: "s + bandRange this / 2 \<le> fadd s (bandRange this)"
      using P b wide low unfolding s_def by (rule fadd_progress)
    have n: "fst (bandStep this spectrum res st) = fadd s (bandRange this)"
      by (simp add: bandStep_def Let_def s_def)
    define x where "x = 2 * (maxFrequency this - s) / bandRange this"
    have "2 * (maxFrequency this - fadd s (bandRange this)) / bandRange this
        \<le> 2 * (maxFrequency this - (s + bandRange this / 2)) / bandRange this"
      using g br by (intro divide_right_mono) simp_all
    also have "\<dots> = x - 1" using br by (simp add: x_def field_simps)
    finally have le: "2 * (maxFrequency this - fadd s (bandRange this)) / bandRange this \<le> x - 1" .
    have "0 < x" using b br by (simp add: x_def s_def)
    then have "0 < \<lceil>x\<rceil>" by (simp add: less_ceiling_iff)
    moreover have "\<lceil>2 * (maxFrequency this - fadd s (bandRange this)) / bandRange this\<rceil>
        \<le> \<lceil>x - 1\<rceil>"
      using le by (rule ceiling_mono)
    ultimately have "nat \<lceil>2 * (maxFrequency this - fadd s (bandRange this)) / bandRange this\<rceil>
        < nat \<lceil>x\<rceil>"
      by simp
    moreover have "f (bandStep this spectrum res st) =
        nat \<lceil>2 * (maxFrequency this - fadd s (bandRange this)) / bandRange this\<rceil>"
      by (simp only: f_def n)
    moreover have "f st = nat \<lceil>x\<rceil>" by (simp only: f_def x_def s_def)
    ultimately have "f (bandStep this spectrum res st) < f st" by (simp only:)
    moreover have "0 \<le> fadd s (bandRange this)" using g P br unfolding s_def by linarith
    ultimately show ?thesis by (simp add: n)
  qed
  have "\<exists>t. while_option (\<lambda>st. fst st < maxFrequency this) (bandStep this spectrum res)
          (minFrequency this, []) = Some t"
  proof (rule measure_while_option_Some [where f = f
        and P = "\<lambda>st :: real \<times> (band \<times> real) list. 0 \<le> fst st"])
    fix st :: "real \<times> (band \<times> real) list"
    assume "0 \<le> fst st" and "fst st < maxFrequency this"
    then show "0 \<le> fst (bandStep this spectrum res st) \<and>
        f (bandStep this spectrum res st) < f st"
      by (rule step)
  next
    show "0 \<le> fst (minFrequency this, [] :: (band \<times> real) list)" using mn by simp
  qed
  then show ?thesis by (auto simp: bandLoop_def)
qed

subsection \<open>Results that are valid\<close>

lemma calculateSpectrum_valid:
  assumes "calculateSpectrum realTransform startTime endTime this waveform = Some (Inr r)"
    and "isValid r"
  shows "areParametersValid this \<and>
    (\<exists>spectrum. bandLoop this spectrum (resolution r) = Some (bandPeaks r) \<and>
       rawSpectrum r = Some spectrum)"
  using assms
  by (auto simp: calculateSpectrum_def invalidResult_def Let_def
      split: if_splits option.splits sum.splits)

lemma applyWindow_lines [simp]:
  "applyWindow (this\<lparr>numberOfLines := n\<rparr>) dat = applyWindow this dat"
  by (simp add: applyWindow_def)

lemma invalidResult_lines [simp]:
  "invalidResult (this\<lparr>numberOfLines := n\<rparr>) waveform res msg = invalidResult this waveform res msg"
  by (simp add: invalidResult_def)

lemma bandStep_lines:
  "bandStep (this\<lparr>numberOfLines := n\<rparr>) spectrum res st = bandStep this spectrum res st"
  by (simp add: bandStep_def)

lemma bandLoop_lines [simp]:
  "bandLoop (this\<lparr>numberOfLines := n\<rparr>) spectrum res = bandLoop this spectrum res"
proof -
  have "bandStep (this\<lparr>numberOfLines := n\<rparr>) spectrum res = bandStep this spectrum res"
    by (rule ext) (rule bandStep_lines)
  then show ?thesis by (simp add: bandLoop_def)
qed

lemma isFilterValid_lines [simp]:
  "isFilterValid (this\<lparr>numberOfLines := n\<rparr>) = isFilterValid this"
  by (simp add: isFilterValid_def)

lemma areParametersValid_lines:
  "MIN_LINES \<le> n \<Longrightarrow> n \<le> MAX_LINES \<Longrightarrow>
   areParametersValid (this\<lparr>numberOfLines := n\<rparr>) \<longleftrightarrow>
     minFrequency this \<ge> 0 \<and> maxFrequency this > minFrequency this \<and>
     bandRange this > 0 \<and> bandRange this \<le> maxFrequency this"
  by (simp add: areParametersValid_def)

text \<open>
  Claim C10. The line count has no effect on what \<^verbatim>\<open>calculateSpectrum\<close> returns: for the
  same waveform, the same transform and the same clock readings, two modules that differ
  only in \<open>numberOfLines\<close>, both within \<open>[100, 102400]\<close>, return the same outcome, that
  is the same validity, reason, resolution, band peaks and retained magnitude array. The
  truncated array \<open>limitedSpectrum\<close> is computed and dropped.
\<close>

theorem numberOfLines_unobservable:
  assumes "MIN_LINES \<le> n1" and "n1 \<le> MAX_LINES" and "MIN_LINES \<le> n2" and "n2 \<le> MAX_LINES"
  shows "calculateSpectrum realTransform startTime endTime (this\<lparr>numberOfLines := n1\<rparr>) waveform =
    calculateSpectrum realTransform startTime endTime (this\<lparr>numberOfLines := n2\<rparr>) waveform"
  unfolding calculateSpectrum_def Let_def
  by (simp add: areParametersValid_lines [OF assms(1,2)] areParametersValid_lines [OF assms(3,4)]
      cong: option.case_cong sum.case_cong if_cong)

theorem numberOfLines_unobservable_witness:
  "MIN_LINES \<le> 100 \<and> (100::real) \<le> MAX_LINES \<and> MIN_LINES \<le> 102400 \<and>
   (102400::real) \<le> MAX_LINES \<and>
   calculateSpectrum dft 0 0 (initialModule\<lparr>numberOfLines := 100\<rparr>) longImpulse =
     calculateSpectrum dft 0 0 (initialModule\<lparr>numberOfLines := 102400\<rparr>) longImpulse"
  using numberOfLines_unobservable [of 100 102400 dft 0 0 initialModule longImpulse]
  by simp

lemma bandEntry_start: "fst (fst (bandEntry this spectrum res k)) = bandStart this k"
  by (simp add: bandEntry_def Let_def)

lemma bandEntry_end:
  "snd (fst (bandEntry this spectrum res k)) = min (bandStart this (Suc k)) (maxFrequency this)"
  by (simp add: bandEntry_def Let_def)

lemma valid_bands:
  assumes "calculateSpectrum realTransform startTime endTime this waveform = Some (Inr r)"
    and "isValid r"
  shows "areParametersValid this \<and>
    (\<exists>spectrum n. rawSpectrum r = Some spectrum \<and>
       bandPeaks r = map (bandEntry this spectrum (resolution r)) [0..<n] \<and>
       \<not> bandStart this n < maxFrequency this \<and>
       (\<forall>i<n. bandStart this i < maxFrequency this))"
proof -
  from calculateSpectrum_valid [OF assms] obtain spectrum where
    v: "areParametersValid this" and
    l: "bandLoop this spectrum (resolution r) = Some (bandPeaks r)" and
    raw: "rawSpectrum r = Some spectrum"
    by blast
  from bandLoop_Some [OF l] raw v show ?thesis by blast
qed

text \<open>
  Claim C5, as amended. In every valid result of \<^verbatim>\<open>calculateSpectrum\<close>, for a module whose
  \<open>minFrequency\<close> is a double, the band keys, in insertion order, start at
  \<open>minFrequency\<close> and end at \<open>maxFrequency\<close>; each band ends where the next one starts,
  and the starts ascend strictly; every band lies within \<open>minFrequency\<close> and
  \<open>maxFrequency\<close> and is not empty. Every band but the last ends at the double sum of its
  start and \<open>bandRange\<close>: its width is \<open>bandRange\<close> up to the rounding of that sum, at
  most \<open>2 ^ - 53\<close> of the sum (\<open>2 ^ - 1075\<close> for a subnormal sum), and is \<open>bandRange\<close>
  where the sum is a double. The last band is at most that wide.
\<close>

theorem bands_contiguous:
  assumes "calculateSpectrum realTransform startTime endTime this waveform = Some (Inr r)"
    and "isValid r"
    and "double (minFrequency this) = minFrequency this"
  shows "bandPeaks r \<noteq> [] \<and>
    fst (fst (hd (bandPeaks r))) = minFrequency this \<and>
    snd (fst (last (bandPeaks r))) = maxFrequency this \<and>
    (\<forall>i. Suc i < length (bandPeaks r) \<longrightarrow>
       snd (fst (bandPeaks r ! i)) = fst (fst (bandPeaks r ! Suc i)) \<and>
       fst (fst (bandPeaks r ! i)) < fst (fst (bandPeaks r ! Suc i)) \<and>
       snd (fst (bandPeaks r ! i)) = double (fst (fst (bandPeaks r ! i)) + bandRange this) \<and>
       \<bar>snd (fst (bandPeaks r ! i)) - fst (fst (bandPeaks r ! i)) - bandRange this\<bar> \<le>
         max (fst (fst (bandPeaks r ! i)) + bandRange this) (2 powi (- 1022)) / 2 ^ 53 \<and>
       (double (fst (fst (bandPeaks r ! i)) + bandRange this) =
          fst (fst (bandPeaks r ! i)) + bandRange this \<longrightarrow>
        snd (fst (bandPeaks r ! i)) - fst (fst (bandPeaks r ! i)) = bandRange this)) \<and>
    (\<forall>i. i < length (bandPeaks r) \<longrightarrow>
       minFrequency this \<le> fst (fst (bandPeaks r ! i)) \<and>
       fst (fst (bandPeaks r ! i)) < snd (fst (bandPeaks r ! i)) \<and>
       snd (fst (bandPeaks r ! i)) \<le> maxFrequency this \<and>
       snd (fst (bandPeaks r ! i)) - fst (fst (bandPeaks r ! i)) \<le>
         bandRange this +
         max (fst (fst (bandPeaks r ! i)) + bandRange this) (2 powi (- 1022)) / 2 ^ 53)"
proof -
  from valid_bands [OF assms(1,2)] obtain spectrum n where
    v: "areParametersValid this" and
    b: "bandPeaks r = map (bandEntry this spectrum (resolution r)) [0..<n]" and
    stop: "\<not> bandStart this n < maxFrequency this" and
    run: "\<forall>i<n. bandStart this i < maxFrequency this"
    by blast
  define mn where "mn = minFrequency this"
  define mx where "mx = maxFrequency this"
  define br where "br = bandRange this"
  define S where "S = bandStart this"
  have br: "0 < br" and mn0: "0 \<le> mn" and mnmx: "mn < mx"
    using v by (simp_all add: areParametersValid_def br_def mn_def mx_def)
  have S0: "S 0 = mn" by (simp add: S_def mn_def bandStart_0)
  have SS: "S (Suc i) = double (S i + br)" for i
    by (simp add: S_def br_def bandStart_Suc fadd_def)
  have n: "0 < n"
  proof (rule ccontr)
    assume "\<not> 0 < n"
    then have "n = 0" by simp
    then show False using stop mnmx S0 by (simp add: S_def mx_def)
  qed
  have len: "length (bandPeaks r) = n" by (simp add: b)
  have nth: "bandPeaks r ! i = bandEntry this spectrum (resolution r) i" if "i < n" for i
    using that by (simp add: b)
  have st: "fst (fst (bandPeaks r ! i)) = S i" if "i < n" for i
    using nth [OF that] by (simp add: bandEntry_start S_def)
  have en: "snd (fst (bandPeaks r ! i)) = min (S (Suc i)) mx" if "i < n" for i
    using nth [OF that] by (simp add: bandEntry_end S_def mx_def)
  have lt: "S i < mx" if "i < n" for i
    using run that by (simp add: S_def mx_def)
  have ge: "mx \<le> S n" using stop by (simp add: S_def mx_def)
  have up: "S i < S (Suc i)" if "i < n" for i
    unfolding S_def
    using mn0 br assms(3) stop lt [OF that] that
    unfolding mn_def br_def S_def mx_def by (rule bandStart_strict)
  have lo: "mn \<le> S i" for i
    unfolding S_def mn_def
    using mn0 br assms(3) unfolding mn_def br_def by (rule bandStart_ge_min)
  have err: "\<bar>S (Suc i) - S i - br\<bar> \<le> max (S i + br) (2 powi (- 1022)) / 2 ^ 53" for i
  proof -
    have "0 \<le> S i + br" using lo [of i] mn0 br by linarith
    then have "\<bar>S i + br\<bar> = S i + br" by simp
    then show ?thesis using double_error_max [of "S i + br"] by (simp add: SS algebra_simps)
  qed
  have ne: "bandPeaks r \<noteq> []" using len n by auto
  have hd: "fst (fst (hd (bandPeaks r))) = mn"
    using st [of 0] n ne S0 by (simp add: hd_conv_nth)
  have "snd (fst (last (bandPeaks r))) = min (S (Suc (n - 1))) mx"
    using en [of "n - 1"] n ne len by (simp add: last_conv_nth)
  then have last: "snd (fst (last (bandPeaks r))) = mx" using ge n by simp
  have inner: "snd (fst (bandPeaks r ! i)) = fst (fst (bandPeaks r ! Suc i)) \<and>
       fst (fst (bandPeaks r ! i)) < fst (fst (bandPeaks r ! Suc i)) \<and>
       snd (fst (bandPeaks r ! i)) = double (fst (fst (bandPeaks r ! i)) + br) \<and>
       \<bar>snd (fst (bandPeaks r ! i)) - fst (fst (bandPeaks r ! i)) - br\<bar> \<le>
         max (fst (fst (bandPeaks r ! i)) + br) (2 powi (- 1022)) / 2 ^ 53 \<and>
       (double (fst (fst (bandPeaks r ! i)) + br) = fst (fst (bandPeaks r ! i)) + br \<longrightarrow>
        snd (fst (bandPeaks r ! i)) - fst (fst (bandPeaks r ! i)) = br)" if "Suc i < n" for i
  proof -
    have i: "i < n" using that by simp
    have e: "snd (fst (bandPeaks r ! i)) = S (Suc i)"
      using en [OF i] lt [OF that] by simp
    show ?thesis
      unfolding e st [OF i] st [OF that]
      using up [OF i] err [of i] SS [of i] by simp
  qed
  have each: "mn \<le> fst (fst (bandPeaks r ! i)) \<and>
       fst (fst (bandPeaks r ! i)) < snd (fst (bandPeaks r ! i)) \<and>
       snd (fst (bandPeaks r ! i)) \<le> mx \<and>
       snd (fst (bandPeaks r ! i)) - fst (fst (bandPeaks r ! i)) \<le>
         br + max (fst (fst (bandPeaks r ! i)) + br) (2 powi (- 1022)) / 2 ^ 53" if "i < n" for i
  proof -
    have "min (S (Suc i)) mx - S i \<le> S (Suc i) - S i" by simp
    also have "\<dots> \<le> br + max (S i + br) (2 powi (- 1022)) / 2 ^ 53"
      using err [of i] by linarith
    finally show ?thesis
      unfolding en [OF that] st [OF that]
      using lo [of i] up [OF that] lt [OF that] by simp
  qed
  show ?thesis
    using ne hd last inner each unfolding len mn_def mx_def br_def by blast
qed

subsection \<open>The filter stage is not read\<close>

lemma applyWindow_filter:
  "applyWindow (this\<lparr>highPassFrequency := hp, lowPassFrequency := lp\<rparr>) dat = applyWindow this dat"
  by (simp add: applyWindow_def)

lemma invalidResult_filter:
  "invalidResult (this\<lparr>highPassFrequency := hp, lowPassFrequency := lp\<rparr>) waveform res msg =
     invalidResult this waveform res msg"
  by (simp add: invalidResult_def)

lemma bandLoop_filter:
  "bandLoop (this\<lparr>highPassFrequency := hp, lowPassFrequency := lp\<rparr>) spectrum res =
     bandLoop this spectrum res"
proof -
  have "bandStep (this\<lparr>highPassFrequency := hp, lowPassFrequency := lp\<rparr>) spectrum res =
      bandStep this spectrum res"
    by (rule ext) (simp add: bandStep_def)
  then show ?thesis by (simp add: bandLoop_def)
qed

lemma areParametersValid_filter:
  "areParametersValid (this\<lparr>highPassFrequency := hp, lowPassFrequency := lp\<rparr>) =
     areParametersValid this"
  by (simp add: areParametersValid_def)

text \<open>
  The filter settings reach the outcome only through the check of their order: two modules
  that differ in \<open>highPassFrequency\<close> and \<open>lowPassFrequency\<close>, both passing that check,
  return the same outcome.
\<close>

lemma filter_unobservable:
  assumes "isFilterValid (this\<lparr>highPassFrequency := hp, lowPassFrequency := lp\<rparr>)"
    and "isFilterValid this"
  shows "calculateSpectrum realTransform startTime endTime
      (this\<lparr>highPassFrequency := hp, lowPassFrequency := lp\<rparr>) waveform =
    calculateSpectrum realTransform startTime endTime this waveform"
  unfolding calculateSpectrum_def Let_def
  using assms
  by (simp add: applyWindow_filter invalidResult_filter bandLoop_filter areParametersValid_filter
      cong: option.case_cong sum.case_cong if_cong)

subsection \<open>Silence\<close>

lemma dft_zero: "dft (replicate n 0) j = 0"
proof -
  have "(\<Sum>m\<leftarrow>[0..<n]. replicate n (0::real) ! m * f m) = 0" for f :: "nat \<Rightarrow> real"
  proof -
    have "(\<Sum>m\<leftarrow>[0..<n]. replicate n (0::real) ! m * f m) = (\<Sum>m\<leftarrow>[0..<n]. 0)"
      by (rule arg_cong [where f = sum_list]) (rule map_cong; simp)
    also have "\<dots> = 0" by simp
    finally show ?thesis .
  qed
  then show ?thesis by (simp add: dft_def Let_def)
qed

lemma fold_peak_zero:
  "\<forall>i\<in>set idxs. spectrum ! i = (0::real) \<Longrightarrow>
   fold (\<lambda>i maxValue. if spectrum ! i > maxValue then spectrum ! i else maxValue) idxs 0 = 0"
  by (induction idxs) simp_all

lemma peak_zero:
  assumes "set spectrum \<subseteq> {0}"
  shows "calculateRealPeakInBand spectrum startFreq endFreq res = 0"
proof -
  have "spectrum ! i = 0"
    if "i \<in> set (takeWhile (\<lambda>i. int i < e) [a..<length spectrum])" for i a e
  proof -
    have "i \<in> set [a..<length spectrum]" using that by (rule set_takeWhileD [THEN conjunct1])
    then have "spectrum ! i \<in> set spectrum" by simp
    then show ?thesis using assms by auto
  qed
  then show ?thesis
    by (simp add: calculateRealPeakInBand_def Let_def fold_peak_zero limitPrecision_zero)
qed

lemma magnitude_zero:
  assumes "\<And>j. out j = 0"
  shows "set (magnitudeSpectrum out n) \<subseteq> {0}"
  by (auto simp: magnitudeSpectrum_def assms limitPrecision_zero)

lemma applyWindow_length:
  "applyWindow this dat = Some w \<Longrightarrow> length w = length dat"
  by (auto simp: applyWindow_def Let_def split: WindowType.splits if_splits)

lemma applyWindow_zero:
  assumes "set dat \<subseteq> {0}" and "length dat \<noteq> 1"
  shows "\<exists>w. applyWindow this dat = Some w \<and> set w \<subseteq> {0}"
proof (cases "windowType this")
  case Hanning
  have "dat ! i = 0" if "i < length dat" for i
    using assms(1) nth_mem [OF that] by blast
  then show ?thesis using assms(2) Hanning by (auto simp: applyWindow_def Let_def)
next
  case Rectangular
  then show ?thesis using assms(1) by (simp add: applyWindow_def)
qed

lemma zeros_replicate: "set xs \<subseteq> {0::real} \<Longrightarrow> xs = replicate (length xs) 0"
  by (induction xs) auto

lemma bandEntry_peak_zero:
  "set spectrum \<subseteq> {0} \<Longrightarrow> snd (bandEntry this spectrum res k) = 0"
  by (simp add: bandEntry_def Let_def peak_zero)

text \<open>
  Claim C6, as amended. For a jointly valid configuration (parameters and filter order) whose
  \<open>maxFrequency\<close> is at most \<open>2 ^ 50\<close> times \<open>bandRange\<close>, and an all-zero waveform of
  at least two and at most \<open>131072 * 300\<close> samples whose sample rate lies between the
  double product \<^verbatim>\<open>maxFrequency * 2.56\<close> and 131072, \<^verbatim>\<open>calculateSpectrum\<close> returns, when
  the clock readings are at most 100 ms apart and the transform maps the zero signal to
  zero, a valid result whose band peaks are all 0. The bound on \<open>maxFrequency\<close> keeps the
  additions of the band loop from being absorbed, so that the loop ends; \<open>bandRange\<close> is
  at least \<open>2 ^ - 1074\<close>, as every positive double is.
\<close>

theorem silence_gives_zero_peaks:
  assumes "areParametersValid this" and "isFilterValid this"
    and "set (data waveform) \<subseteq> {0}"
    and "2 \<le> length (data waveform)"
    and "real (length (data waveform)) \<le> MAX_SAMPLE_RATE * MAX_WAVEFORM_LENGTH"
    and "fmul (maxFrequency this) (double 2.56) \<le> sampleRate waveform"
    and "sampleRate waveform \<le> MAX_SAMPLE_RATE"
    and "maxFrequency this \<le> 2 ^ 50 * bandRange this"
    and "2 powi (- 1074) \<le> bandRange this"
    and "endTime - startTime \<le> MAX_SPECTRUM_CALC_TIME"
    and "\<forall>n j. realTransform (replicate n 0) j = 0"
  shows "\<exists>r. calculateSpectrum realTransform startTime endTime this waveform = Some (Inr r) \<and>
    isValid r \<and> bandPeaks r \<noteq> [] \<and> snd ` set (bandPeaks r) = {0}"
proof -
  from applyWindow_zero [OF assms(3), of this] assms(4)
  obtain w where w: "applyWindow this (data waveform) = Some w" "set w \<subseteq> {0}"
    by auto
  have lw: "length w = length (data waveform)" using w(1) by (rule applyWindow_length)
  from getNextPowerOfTwo_total [of "length w"] assms(4) lw
  obtain p where p: "getNextPowerOfTwo (length w) = Some p" "length w \<le> p" "FFT p = Inr ()"
    by auto
  define padded where
    "padded = (if p > length w then w @ replicate (p - length w) 0 else w)"
  have lp: "length padded = p" using p(2) by (simp add: padded_def)
  have "set padded \<subseteq> {0}" using w(2) by (auto simp: padded_def)
  then have padded: "padded = replicate p 0" using zeros_replicate [of padded] lp by simp
  define spectrum where "spectrum = magnitudeSpectrum (realTransform padded) p"
  have sz: "set spectrum \<subseteq> {0}"
    unfolding spectrum_def padded using assms(11) by (intro magnitude_zero) simp
  define res where "res = sampleRate waveform / real p"
  have mn: "0 \<le> minFrequency this" and mnmx: "minFrequency this < maxFrequency this"
    using assms(1) by (simp_all add: areParametersValid_def)
  from bandLoop_terminates [OF mn assms(8,9), of spectrum res]
  obtain bands where loop: "bandLoop this spectrum res = Some bands" by blast
  from bandLoop_Some [OF loop] obtain n where
    bands: "bands = map (bandEntry this spectrum res) [0..<n]" and
    stop: "\<not> bandStart this n < maxFrequency this"
    by blast
  have "n \<noteq> 0"
  proof
    assume "n = 0"
    then have "bandStart this n = minFrequency this" by (simp add: bandStart_0)
    then show False using stop mnmx by simp
  qed
  then have ne: "bands \<noteq> []" by (simp add: bands)
  have "snd ` set bands \<subseteq> {0}"
    using sz by (auto simp: bands bandEntry_peak_zero)
  then have zero: "snd ` set bands = {0}" using ne by (cases bands) auto
  have guard: "\<not> sampleRate waveform < fmul (maxFrequency this) (double 2.56)"
    using assms(6) by simp
  have "calculateSpectrum realTransform startTime endTime this waveform =
      Some (Inr \<lparr>res_maxFrequency = maxFrequency this, resolution = res,
        res_quantity = quantity waveform, bandPeaks = bands, isValid = True,
        errorMessage = None, rawSpectrum = Some spectrum\<rparr>)"
    unfolding calculateSpectrum_def
    using assms(1,2,5,7,10) guard w(1) p(1,3) loop
    by (simp add: Let_def lp [unfolded padded_def] spectrum_def [unfolded padded_def]
        res_def)
  then show ?thesis using ne zero by simp
qed

subsection \<open>Concrete runs\<close>

text \<open>
  The products of the sample-rate check and the sums of the band loop for the concrete
  modules, each rounded as \<^const>\<open>double\<close> prescribes: \<open>1000 * 2.56\<close> is \<open>2560\<close> and
  \<open>60000 * 2.56\<close> is \<open>153600\<close>, the literal lying below \<open>2.56\<close>; the sums of
  multiples of 40 are exact; the sums of \<open>0.1\<close> are \<open>0.2\<close>,
  \<open>0.30000000000000004\<close> and \<open>0.4\<close>.
\<close>

lemma product_1000: "fmul 1000 (double 2.56) = 2560"
  unfolding double_256 unfolding fmul_def
  by (subst double_eval [where e = 11]) (simp_all add: roundEven_def)

lemma product_60000: "fmul 60000 (double 2.56) = 153600"
  unfolding double_256 unfolding fmul_def
  by (subst double_eval [where e = 17]) (simp_all add: roundEven_def)

lemma product_80: "fmul 80 (double 2.56) = 3602879701896397 / 2 ^ 44"
  unfolding double_256 unfolding fmul_def
  by (subst double_eval [where e = 7]) (simp_all add: roundEven_def)

lemma product_four_tenths:
  "fmul (double (4 / 10)) (double 2.56) = 1152921504606847 / 2 ^ 50"
  unfolding double_256 double_four_tenths unfolding fmul_def
  by (subst double_eval [where e = 0]) (simp_all add: roundEven_def)

lemma sum_0_40: "fadd 0 40 = 40"
  unfolding fadd_def
  by (subst double_eval [where e = 5]) (simp_all add: roundEven_def)

lemma sum_40_40: "fadd 40 40 = 80"
  unfolding fadd_def
  by (subst double_eval [where e = 6]) (simp_all add: roundEven_def)

lemma sum_tenth_1: "fadd 0 (3602879701896397 / 2 ^ 55) = 3602879701896397 / 2 ^ 55"
  unfolding fadd_def
  by (subst double_eval [where e = "- 4"]) (simp_all add: roundEven_def)

lemma sum_tenth_2:
  "fadd (3602879701896397 / 2 ^ 55) (3602879701896397 / 2 ^ 55) = 3602879701896397 / 2 ^ 54"
  unfolding fadd_def
  by (subst double_eval [where e = "- 3"]) (simp_all add: roundEven_def)

lemma sum_tenth_3:
  "fadd (3602879701896397 / 2 ^ 54) (3602879701896397 / 2 ^ 55) = 1351079888211149 / 2 ^ 52"
  unfolding fadd_def
  by (subst double_eval [where e = "- 2"]) (simp_all add: roundEven_def)

lemma sum_tenth_4:
  "fadd (1351079888211149 / 2 ^ 52) (3602879701896397 / 2 ^ 55) = 3602879701896397 / 2 ^ 53"
  unfolding fadd_def
  by (subst double_eval [where e = "- 2"]) (simp_all add: roundEven_def)

lemma initialModule_valid: "areParametersValid initialModule \<and> isFilterValid initialModule"
  by (simp add: areParametersValid_def isFilterValid_def initialModule_def)

theorem silence_gives_zero_peaks_witness:
  "areParametersValid initialModule \<and> isFilterValid initialModule \<and>
   set (data quietWaveform) \<subseteq> {0} \<and> 2 \<le> length (data quietWaveform) \<and>
   real (length (data quietWaveform)) \<le> MAX_SAMPLE_RATE * MAX_WAVEFORM_LENGTH \<and>
   fmul (maxFrequency initialModule) (double 2.56) \<le> sampleRate quietWaveform \<and>
   sampleRate quietWaveform \<le> MAX_SAMPLE_RATE \<and>
   maxFrequency initialModule \<le> 2 ^ 50 * bandRange initialModule \<and>
   2 powi (- 1074) \<le> bandRange initialModule \<and>
   (0::int) - 0 \<le> MAX_SPECTRUM_CALC_TIME \<and>
   (\<forall>n j. dft (replicate n 0) j = 0) \<and>
   (\<exists>r. calculateSpectrum dft 0 0 initialModule quietWaveform = Some (Inr r) \<and>
      isValid r \<and> bandPeaks r \<noteq> [] \<and> snd ` set (bandPeaks r) = {0})"
proof -
  have h: "set (data quietWaveform) \<subseteq> {0}" "2 \<le> length (data quietWaveform)"
    "real (length (data quietWaveform)) \<le> MAX_SAMPLE_RATE * MAX_WAVEFORM_LENGTH"
    "fmul (maxFrequency initialModule) (double 2.56) \<le> sampleRate quietWaveform"
    "sampleRate quietWaveform \<le> MAX_SAMPLE_RATE"
    "maxFrequency initialModule \<le> 2 ^ 50 * bandRange initialModule"
    "2 powi (- 1074) \<le> bandRange initialModule"
    "(0::int) - 0 \<le> MAX_SPECTRUM_CALC_TIME"
    "\<forall>n j. dft (replicate n 0) j = 0"
    using product_1000
    by (simp_all add: quietWaveform_def initialModule_def dft_zero power_int_minus)
  show ?thesis
    using silence_gives_zero_peaks [of initialModule quietWaveform 0 0 dft]
      initialModule_valid h
    by blast
qed

text \<open>
  Claim C6 as stated fails: the fresh module is a valid configuration, and silence sampled at
  1000 Hz is rejected for its sample rate, below \<open>1000 * 2.56 = 2560\<close>.
\<close>

theorem silence_low_rate_counterexample:
  "areParametersValid initialModule \<and> isFilterValid initialModule \<and>
   set (data slowWaveform) \<subseteq> {0} \<and>
   calculateSpectrum dft 0 0 initialModule slowWaveform =
     Some (Inr (invalidResult initialModule slowWaveform 0
       ''Sample rate must be at least 2.56 times higher than maximum frequency'')) \<and>
   \<not> isValid (invalidResult initialModule slowWaveform 0
       ''Sample rate must be at least 2.56 times higher than maximum frequency'')"
proof -
  have p: "fmul (maxFrequency initialModule) (double 2.56) = 2560"
    using product_1000 by (simp add: initialModule_def)
  show ?thesis
    using initialModule_valid p
    by (simp add: calculateSpectrum_def slowWaveform_def invalidResult_def)
qed

text \<open>
  The bound on \<open>maxFrequency\<close> in claim C6 is needed. With \<open>minFrequency = 1\<close> and
  \<open>bandRange = 1e-17\<close> the sum \<open>1 + 1e-17\<close> is the double 1: the start never moves,
  the band loop does not end, and \<^verbatim>\<open>calculateSpectrum\<close> does not return, for silence
  that passes every check.
\<close>

lemma bandLoop_absorbed:
  assumes "fadd (minFrequency this) (bandRange this) = minFrequency this"
    and "minFrequency this < maxFrequency this"
  shows "bandLoop this spectrum res = None"
proof -
  have s: "bandStart this k = minFrequency this" for k
    by (induction k) (simp_all add: bandStart_0 bandStart_Suc assms(1))
  have "\<not> (\<exists>k. \<not> fst ((bandStep this spectrum res ^^ k) (minFrequency this, []))
      < maxFrequency this)"
    by (simp add: bandStep_iterate s assms(2))
  then have "while_option (\<lambda>st. fst st < maxFrequency this) (bandStep this spectrum res)
      (minFrequency this, []) = None"
    unfolding while_option_def by (simp only: if_False)
  then show ?thesis by (simp add: bandLoop_def)
qed

lemma double_1e17: "double (1 / 10 ^ 17) = 6490371073168535 / 2 ^ 109"
  by (subst double_eval [where e = "- 57"]) (simp_all add: roundEven_def)

lemma sum_absorbed: "fadd 1 (6490371073168535 / 2 ^ 109) = 1"
  unfolding fadd_def
  by (subst double_eval [where e = 0]) (simp_all add: roundEven_def)

lemma stuck_fields:
  "minFrequency stuckModule = 1" "maxFrequency stuckModule = 1000"
  "bandRange stuckModule = 6490371073168535 / 2 ^ 109" "windowType stuckModule = Hanning"
  using double_1e17 by (simp_all add: stuckModule_def initialModule_def)

lemma stuck_valid: "areParametersValid stuckModule \<and> isFilterValid stuckModule"
  using double_1e17
  by (simp add: areParametersValid_def isFilterValid_def stuckModule_def initialModule_def)

lemma stuck_loop: "bandLoop stuckModule spectrum res = None"
proof (rule bandLoop_absorbed)
  show "fadd (minFrequency stuckModule) (bandRange stuckModule) = minFrequency stuckModule"
    unfolding stuck_fields by (rule sum_absorbed)
  show "minFrequency stuckModule < maxFrequency stuckModule"
    unfolding stuck_fields by simp
qed

lemma absorbed_loop_never_returns:
  "areParametersValid stuckModule \<and> isFilterValid stuckModule \<and>
   set (data quietWaveform) \<subseteq> {0} \<and> 2 \<le> length (data quietWaveform) \<and>
   fmul (maxFrequency stuckModule) (double 2.56) \<le> sampleRate quietWaveform \<and>
   sampleRate quietWaveform \<le> MAX_SAMPLE_RATE \<and>
   \<not> maxFrequency stuckModule \<le> 2 ^ 50 * bandRange stuckModule \<and>
   calculateSpectrum dft 0 0 stuckModule quietWaveform = None"
proof -
  have z: "set (data quietWaveform) \<subseteq> {0}" "length (data quietWaveform) = 4"
    "sampleRate quietWaveform = 4096"
    by (simp_all add: quietWaveform_def)
  from applyWindow_zero [OF z(1), of stuckModule] z(2)
  obtain w where w: "applyWindow stuckModule (data quietWaveform) = Some w" by auto
  have lw: "length w = 4" using applyWindow_length [OF w] z(2) by simp
  have p: "getNextPowerOfTwo 4 = Some 4" by (simp add: getNextPowerOfTwo_def)
  have f: "FFT 4 = Inr ()" by (simp add: FFT_def)
  have g: "fmul (maxFrequency stuckModule) (double 2.56) = 2560"
    unfolding stuck_fields by (rule product_1000)
  have wide: "\<not> maxFrequency stuckModule \<le> 2 ^ 50 * bandRange stuckModule"
    unfolding stuck_fields by simp
  have "calculateSpectrum dft 0 0 stuckModule quietWaveform = None"
    unfolding calculateSpectrum_def
    using g stuck_valid
    by (simp add: z w lw p f stuck_loop Let_def)
  then show ?thesis using stuck_valid z g wide by simp
qed

text \<open>
  Claim C4, as amended. A waveform whose sample rate exceeds 131072 Hz always yields an
  invalid result, whatever the configuration and the other fields of the waveform. Its
  reason is the one of the first check that fails, in the order of the source: the joint
  parameter check, the filter order, the lower bound on the sample rate, which is the
  product of doubles \<^verbatim>\<open>this.maxFrequency * 2.56\<close>, and only then the upper bound; so the
  reason is the sample-rate-exceeded one exactly when the three earlier checks pass.
\<close>

theorem sample_rate_limit:
  assumes "sampleRate waveform > MAX_SAMPLE_RATE"
  shows "\<exists>r. calculateSpectrum realTransform startTime endTime this waveform = Some (Inr r) \<and>
    \<not> isValid r \<and>
    errorMessage r = Some
      (if \<not> areParametersValid this then ''Invalid spectrum parameters''
       else if \<not> isFilterValid this then
         ''High pass frequency must be smaller than low pass frequency''
       else if sampleRate waveform < fmul (maxFrequency this) (double 2.56) then
         ''Sample rate must be at least 2.56 times higher than maximum frequency''
       else ''Sample rate cannot exceed 131072 Hz'')"
  using assms by (simp add: calculateSpectrum_def invalidResult_def)

theorem sample_rate_limit_witness:
  "sampleRate fastWaveform > MAX_SAMPLE_RATE \<and>
   (\<exists>r. calculateSpectrum dft 0 0 initialModule fastWaveform = Some (Inr r) \<and>
      \<not> isValid r \<and> errorMessage r = Some ''Sample rate cannot exceed 131072 Hz'')"
proof -
  have p: "fmul (maxFrequency initialModule) (double 2.56) = 2560"
    using product_1000 by (simp add: initialModule_def)
  have h: "sampleRate fastWaveform > MAX_SAMPLE_RATE" by (simp add: fastWaveform_def)
  have r: "\<not> sampleRate fastWaveform < 2560" by (simp add: fastWaveform_def)
  show ?thesis
    using sample_rate_limit [OF h, of dft 0 0 initialModule] initialModule_valid h r p
    by simp
qed

text \<open>
  Claim C4 as stated fails on the reason: with \<open>maxFrequency = 60000\<close> a waveform sampled
  at 150 kHz is rejected by the earlier check, for a sample rate below
  \<open>60000 * 2.56 = 153600\<close>.
\<close>

theorem sample_rate_reason_counterexample:
  "sampleRate fastWaveform > MAX_SAMPLE_RATE \<and>
   calculateSpectrum dft 0 0 wideModule fastWaveform =
     Some (Inr (invalidResult wideModule fastWaveform 0
       ''Sample rate must be at least 2.56 times higher than maximum frequency'')) \<and>
   errorMessage (invalidResult wideModule fastWaveform 0
       ''Sample rate must be at least 2.56 times higher than maximum frequency'')
     \<noteq> Some ''Sample rate cannot exceed 131072 Hz''"
proof -
  have p: "fmul (maxFrequency wideModule) (double 2.56) = 153600"
    using product_60000 by (simp add: wideModule_def)
  have v: "areParametersValid wideModule" "isFilterValid wideModule"
    by (simp_all add: areParametersValid_def isFilterValid_def wideModule_def initialModule_def)
  show ?thesis
    using p
    by (simp add: calculateSpectrum_def v fastWaveform_def invalidResult_def)
qed

text \<open>
  The unit impulse of four samples at 256 Hz: its two magnitudes are \<open>1 / 4\<close>, the
  resolution is 64 Hz, and every band that starts below 64 Hz has the peak \<open>1 / 4\<close>.
\<close>

lemma upt_0_4: "[0..<4] = [0, 1, 2, 3]"
  by (simp add: upt_rec)

lemma upt_0_2: "[0..<2] = [0, 1]"
  by (simp add: upt_rec)

lemma impulse_magnitude: "magnitudeSpectrum (dft [1, 0, 0, 0]) 4 = [1 / 4, 1 / 4]"
  by (simp add: magnitudeSpectrum_def dft_def limitPrecision_quarter upt_0_4 upt_0_2)

lemma peak_quarter:
  assumes "0 \<le> startFreq" and "startFreq < 64" and "0 < endFreq"
  shows "calculateRealPeakInBand [1 / 4, 1 / 4] startFreq endFreq 64 = 1 / 4"
proof -
  have s: "\<lfloor>startFreq / 64\<rfloor> = 0" using assms(1,2) by (simp add: floor_eq_iff)
  have e: "0 < \<lceil>endFreq / 64\<rceil>" using assms(3) by (simp add: less_ceiling_iff)
  show ?thesis
    using e by (simp add: calculateRealPeakInBand_def s upt_0_2 limitPrecision_quarter)
qed

lemma filter_starts:
  "bandStart filterModule 0 = 0" "bandStart filterModule (Suc 0) = 40"
  "bandStart filterModule (Suc (Suc 0)) = 80"
proof -
  have m: "minFrequency filterModule = 0" "bandRange filterModule = 40"
    by (simp_all add: filterModule_def)
  show "bandStart filterModule 0 = 0" "bandStart filterModule (Suc 0) = 40"
    "bandStart filterModule (Suc (Suc 0)) = 80"
    unfolding bandStart_Suc bandStart_0 m sum_0_40 sum_40_40 by (rule refl)+
qed

lemma impulse_bands:
  "bandLoop filterModule [1 / 4, 1 / 4] 64 = Some [((0, 40), 1 / 4), ((40, 80), 1 / 4)]"
proof -
  have mx: "maxFrequency filterModule = 80" by (simp add: filterModule_def)
  have "bandLoop filterModule [1 / 4, 1 / 4] 64 =
      Some (map (bandEntry filterModule [1 / 4, 1 / 4] 64) [0..<Suc (Suc 0)])"
    by (rule bandLoop_steps) (simp_all add: filter_starts mx less_Suc_eq)
  also have "map (bandEntry filterModule [1 / 4, 1 / 4] 64) [0..<Suc (Suc 0)] =
      [((0, 40), 1 / 4), ((40, 80), 1 / 4)]"
    by (simp add: bandEntry_def filter_starts mx peak_quarter)
  finally show ?thesis .
qed

lemma tenth_starts:
  "bandStart tenthModule 0 = 0"
  "bandStart tenthModule (Suc 0) = 3602879701896397 / 2 ^ 55"
  "bandStart tenthModule (Suc (Suc 0)) = 3602879701896397 / 2 ^ 54"
  "bandStart tenthModule (Suc (Suc (Suc 0))) = 1351079888211149 / 2 ^ 52"
  "bandStart tenthModule (Suc (Suc (Suc (Suc 0)))) = 3602879701896397 / 2 ^ 53"
proof -
  have m: "minFrequency tenthModule = 0"
    "bandRange tenthModule = 3602879701896397 / 2 ^ 55"
    using double_tenth by (simp_all add: tenthModule_def)
  show "bandStart tenthModule 0 = 0"
    "bandStart tenthModule (Suc 0) = 3602879701896397 / 2 ^ 55"
    "bandStart tenthModule (Suc (Suc 0)) = 3602879701896397 / 2 ^ 54"
    "bandStart tenthModule (Suc (Suc (Suc 0))) = 1351079888211149 / 2 ^ 52"
    "bandStart tenthModule (Suc (Suc (Suc (Suc 0)))) = 3602879701896397 / 2 ^ 53"
    unfolding bandStart_Suc bandStart_0 m sum_tenth_1 sum_tenth_2 sum_tenth_3 sum_tenth_4
    by (rule refl)+
qed

lemma tenth_max: "maxFrequency tenthModule = 3602879701896397 / 2 ^ 53"
  using double_four_tenths by (simp add: tenthModule_def)

lemma tenth_bands:
  "bandLoop tenthModule [1 / 4, 1 / 4] 64 = Some (bandPeaks tenthResult)"
proof -
  have "bandLoop tenthModule [1 / 4, 1 / 4] 64 =
      Some (map (bandEntry tenthModule [1 / 4, 1 / 4] 64) [0..<Suc (Suc (Suc (Suc 0)))])"
    by (rule bandLoop_steps) (simp_all add: tenth_starts tenth_max less_Suc_eq)
  also have "map (bandEntry tenthModule [1 / 4, 1 / 4] 64) [0..<Suc (Suc (Suc (Suc 0)))] =
      bandPeaks tenthResult"
    by (simp add: bandEntry_def tenth_starts tenth_max peak_quarter tenthResult_def)
  finally show ?thesis .
qed

lemma impulse_run:
  assumes v: "areParametersValid this" "isFilterValid this"
    and w: "windowType this = Rectangular"
    and g: "fmul (maxFrequency this) (double 2.56) \<le> 256"
    and b: "bandLoop this [1 / 4, 1 / 4] 64 = Some bands"
  shows "calculateSpectrum dft 0 0 this impulse =
    Some (Inr \<lparr>res_maxFrequency = maxFrequency this, resolution = 64,
      res_quantity = Acceleration, bandPeaks = bands, isValid = True,
      errorMessage = None, rawSpectrum = Some [1 / 4, 1 / 4]\<rparr>)"
proof -
  have a: "applyWindow this [1, 0, 0, 0] = Some [1, 0, 0, 0]"
    by (simp add: applyWindow_def w)
  have p: "getNextPowerOfTwo 4 = Some 4" by (simp add: getNextPowerOfTwo_def)
  have f: "FFT 4 = Inr ()" by (simp add: FFT_def)
  have four: "Suc (Suc (Suc (Suc 0))) = 4" by simp
  have g': "\<not> 256 < fmul (maxFrequency this) (double 2.56)" using g by simp
  show ?thesis
    unfolding calculateSpectrum_def
    using g'
    by (simp add: v a four p f impulse_magnitude b impulse_def Let_def)
qed

lemma impulse_spectrum:
  "calculateSpectrum dft 0 0 filterModule impulse = Some (Inr impulseResult)"
proof -
  have v: "areParametersValid filterModule" "isFilterValid filterModule"
    "windowType filterModule = Rectangular"
    by (simp_all add: areParametersValid_def isFilterValid_def filterModule_def)
  have g: "fmul (maxFrequency filterModule) (double 2.56) \<le> 256"
    using product_80 by (simp add: filterModule_def)
  show ?thesis
    using impulse_run [OF v g impulse_bands]
    by (simp add: impulseResult_def filterModule_def)
qed

lemma tenth_spectrum:
  "calculateSpectrum dft 0 0 tenthModule impulse = Some (Inr tenthResult)"
proof -
  have v: "areParametersValid tenthModule" "isFilterValid tenthModule"
    "windowType tenthModule = Rectangular"
    using double_tenth double_four_tenths
    by (simp_all add: areParametersValid_def isFilterValid_def tenthModule_def)
  have g: "fmul (maxFrequency tenthModule) (double 2.56) \<le> 256"
    using product_four_tenths by (simp add: tenthModule_def)
  show ?thesis
    using impulse_run [OF v g tenth_bands] tenth_max
    by (simp add: tenthResult_def)
qed

lemma impulse_filtered:
  "applyFrequencyDomainFiltering filterModule [1 / 4, 1 / 4] 64 = [0, 1 / 4]"
  by (simp add: applyFrequencyDomainFiltering_def filterModule_def zeroAt_def upt_0_2)

text \<open>
  Claim C1 fails on the code: the band loop reads \<open>spectrum\<close>, the magnitudes before the
  filter, and the filtered array is dropped. For the unit impulse and a high-pass filter at
  70 Hz, with a resolution of 64 Hz, the filter zeroes bin 0, the only bin of the band
  \<open>[0, 40)\<close>; the peak of that band over the filtered spectrum is 0, and the result
  reports \<open>1 / 4\<close>.
\<close>

theorem band_peaks_ignore_filter:
  "calculateSpectrum dft 0 0 filterModule impulse = Some (Inr impulseResult) \<and>
   bandPeaks impulseResult = [((0, 40), 1 / 4), ((40, 80), 1 / 4)] \<and>
   rawSpectrum impulseResult = Some [1 / 4, 1 / 4] \<and>
   applyFrequencyDomainFiltering filterModule [1 / 4, 1 / 4] (resolution impulseResult)
     = [0, 1 / 4] \<and>
   calculateRealPeakInBand
     (applyFrequencyDomainFiltering filterModule [1 / 4, 1 / 4] (resolution impulseResult))
     0 40 (resolution impulseResult) = 0"
  by (simp add: impulse_spectrum impulse_filtered calculateRealPeakInBand_def
      limitPrecision_zero upt_0_2 impulseResult_def)

text \<open>The witness of claim C5: the two bands of the impulse's result.\<close>

theorem bands_contiguous_witness:
  "calculateSpectrum dft 0 0 filterModule impulse = Some (Inr impulseResult) \<and>
   isValid impulseResult \<and>
   double (minFrequency filterModule) = minFrequency filterModule \<and>
   bandPeaks impulseResult \<noteq> [] \<and>
   fst (fst (hd (bandPeaks impulseResult))) = minFrequency filterModule \<and>
   snd (fst (last (bandPeaks impulseResult))) = maxFrequency filterModule \<and>
   snd (fst (bandPeaks impulseResult ! 0)) = fst (fst (bandPeaks impulseResult ! Suc 0)) \<and>
   fst (fst (bandPeaks impulseResult ! 0)) < fst (fst (bandPeaks impulseResult ! Suc 0)) \<and>
   snd (fst (bandPeaks impulseResult ! 0)) =
     double (fst (fst (bandPeaks impulseResult ! 0)) + bandRange filterModule)"
proof -
  have v: "isValid impulseResult" by (simp add: impulseResult_def)
  have d: "double (minFrequency filterModule) = minFrequency filterModule"
    by (simp add: filterModule_def)
  have l: "Suc 0 < length (bandPeaks impulseResult)" by (simp add: impulseResult_def)
  show ?thesis
    using bands_contiguous [OF impulse_spectrum v d] impulse_spectrum v d l by blast
qed

text \<open>
  Claim C5 as stated fails on the widths: with \<open>maxFrequency = 0.4\<close> and
  \<open>bandRange = 0.1\<close> the third of the four bands runs from the double \<open>0.2\<close> to the
  double \<open>0.30000000000000004\<close>, the rounded sum of \<open>0.2\<close> and \<open>0.1\<close>, and is wider
  than \<open>bandRange\<close>.
\<close>

theorem bands_width_counterexample:
  "calculateSpectrum dft 0 0 tenthModule impulse = Some (Inr tenthResult) \<and>
   isValid tenthResult \<and>
   length (bandPeaks tenthResult) = 4 \<and>
   fst (bandPeaks tenthResult ! 2) = (3602879701896397 / 2 ^ 54, 1351079888211149 / 2 ^ 52) \<and>
   bandRange tenthModule = 3602879701896397 / 2 ^ 55 \<and>
   snd (fst (bandPeaks tenthResult ! 2)) - fst (fst (bandPeaks tenthResult ! 2)) >
     bandRange tenthModule"
proof -
  have m: "bandRange tenthModule = 3602879701896397 / 2 ^ 55"
    using double_tenth by (simp add: tenthModule_def)
  show ?thesis
    using tenth_spectrum m by (simp add: tenthResult_def)
qed

section \<open>integrateSpectrum leaves its input alone\<close>

lemma lookup_append: "lookup h a = Some x \<Longrightarrow> lookup (h @ ys) a = Some x"
  by (auto simp: lookup_def nth_append split: if_splits)

lemma lookup_update:
  "lookup (h[m := x]) a = (if a = m \<and> m < length h then Some x else lookup h a)"
  by (simp add: lookup_def)

lemma readBand_append: "readBand h k = Some b \<Longrightarrow> readBand (h @ ys) k = Some b"
proof -
  assume a: "readBand h k = Some b"
  then obtain x where x: "lookup h k = Some x"
    by (cases "lookup h k") (simp_all add: readBand_def)
  from lookup_append [OF x, of ys] a x show ?thesis by (simp add: readBand_def)
qed

lemma readBand_update:
  assumes "lookup h m = Some (MapObject acc)"
  shows "readBand (h[m := MapObject x]) k = readBand h k"
  using assms by (auto simp: readBand_def lookup_update)

lemma integratedKeys_cong:
  "(\<And>k. k \<in> fst ` set entries \<Longrightarrow> readBand h' k = readBand h k) \<Longrightarrow>
   integratedKeys h' entries = integratedKeys h entries"
  unfolding integratedKeys_def
  by (induction entries) auto

lemma mapSet_fresh:
  assumes "lookup h m = Some (MapObject acc)" and "key \<notin> fst ` set acc"
  shows "mapSet h m key v = Some (h[m := MapObject (acc @ [(key, v)])])"
  using assms by (simp add: mapSet_def)

lemma integratedKeys_Cons:
  "integratedKeys h ((k, v) # es) =
     (if centerFreq (the (readBand h k)) > 0
      then (k, limitPrecision (integrationQuotient (the (readBand h k)) v)) # integratedKeys h es
      else integratedKeys h es)"
  by (simp add: integratedKeys_def)

lemma integrateEntries_effect:
  assumes "lookup h result = Some (Result r)"
    and "lookup h (o_bandPeaks r) = Some (MapObject acc)"
    and "list_all (\<lambda>entry. readBand h (fst entry) \<noteq> None) es"
    and "distinct (map fst es)"
    and "fst ` set acc \<inter> fst ` set es = {}"
  shows "integrateEntries h result es =
    Some (h[o_bandPeaks r := MapObject (acc @ integratedKeys h es)])"
  using assms
proof (induction es arbitrary: h acc)
  case Nil
  have "o_bandPeaks r < length h" "h ! o_bandPeaks r = MapObject acc"
    using Nil(2) by (auto simp: lookup_def split: if_splits)
  then have "h[o_bandPeaks r := MapObject acc] = h"
    by (metis list_update_id)
  then show ?case by (simp add: integratedKeys_def)
next
  case (Cons e es)
  obtain k v where e: "e = (k, v)" by (cases e)
  define m where "m = o_bandPeaks r"
  from Cons.prems(3) e obtain b where b: "readBand h k = Some b" by auto
  have rest: "list_all (\<lambda>entry. readBand h (fst entry) \<noteq> None) es" "distinct (map fst es)"
    "k \<notin> fst ` set es" "k \<notin> fst ` set acc" "fst ` set acc \<inter> fst ` set es = {}"
    using Cons.prems(3,4,5) e by auto
  show ?case
  proof (cases "centerFreq b \<le> 0")
    case True
    have "integrateEntries h result (e # es) = integrateEntries h result es"
      using True b e by simp
    also have "\<dots> = Some (h[o_bandPeaks r := MapObject (acc @ integratedKeys h es)])"
      using Cons.prems(1,2) rest by (intro Cons.IH) auto
    also have "integratedKeys h es = integratedKeys h (e # es)"
      using True b e by (simp add: integratedKeys_Cons)
    finally show ?thesis .
  next
    case False
    define v' where "v' = limitPrecision (integrationQuotient b v)"
    define h1 where "h1 = h[m := MapObject (acc @ [(k, v')])]"
    have ml: "m < length h" "h ! m = MapObject acc"
      using Cons.prems(2) by (auto simp: lookup_def m_def split: if_splits)
    have rm: "result \<noteq> m"
      using Cons.prems(1,2) by (auto simp: m_def)
    have set: "mapSet h m k v' = Some h1"
      unfolding h1_def using Cons.prems(2) rest(4) by (intro mapSet_fresh) (simp_all add: m_def)
    have step: "integrateEntries h result (e # es) = integrateEntries h1 result es"
      using False b e Cons.prems(1) set
      by (simp add: Let_def v'_def m_def integrationQuotient_def)
    have stable: "readBand h1 a = readBand h a" for a
      unfolding h1_def using Cons.prems(2) by (intro readBand_update) (simp add: m_def)
    have 1: "lookup h1 result = Some (Result r)"
      using Cons.prems(1) rm by (simp add: h1_def lookup_update)
    have 2: "lookup h1 (o_bandPeaks r) = Some (MapObject (acc @ [(k, v')]))"
      using ml by (simp add: h1_def lookup_update m_def)
    have 3: "list_all (\<lambda>entry. readBand h1 (fst entry) \<noteq> None) es"
      using rest(1) by (simp add: stable)
    have 5: "fst ` set (acc @ [(k, v')]) \<inter> fst ` set es = {}"
      using rest(3,5) by auto
    have "integrateEntries h1 result es =
        Some (h1[o_bandPeaks r := MapObject ((acc @ [(k, v')]) @ integratedKeys h1 es)])"
      using 1 2 3 rest(2) 5 by (rule Cons.IH)
    also have "integratedKeys h1 es = integratedKeys h es"
      by (rule integratedKeys_cong) (rule stable)
    also have "h1[o_bandPeaks r := MapObject ((acc @ [(k, v')]) @ integratedKeys h es)] =
        h[o_bandPeaks r := MapObject (acc @ integratedKeys h (e # es))]"
      using False b e by (simp add: h1_def m_def integratedKeys_Cons v'_def)
    finally show ?thesis using step by simp
  qed
qed

lemma readEntries_SomeD:
  assumes "readEntries h es = Some bands"
  shows "distinct (map fst es) \<and> list_all (\<lambda>entry. readBand h (fst entry) \<noteq> None) es \<and>
    bands = map (\<lambda>entry. (the (readBand h (fst entry)), snd entry)) es"
  using assms by (auto simp: readEntries_def split: if_splits)

lemma readEntries_append:
  assumes "readEntries h es = Some bands"
  shows "readEntries (h @ ys) es = Some bands"
proof -
  from readEntries_SomeD [OF assms] have d: "distinct (map fst es)"
    and r: "list_all (\<lambda>entry. readBand h (fst entry) \<noteq> None) es"
    and b: "bands = map (\<lambda>entry. (the (readBand h (fst entry)), snd entry)) es"
    by auto
  have same: "readBand (h @ ys) (fst entry) = readBand h (fst entry)" if "entry \<in> set es" for entry
  proof -
    from r that obtain b where "readBand h (fst entry) = Some b"
      by (auto simp: list_all_iff)
    then show ?thesis using readBand_append [of h "fst entry" b ys] by simp
  qed
  have "list_all (\<lambda>entry. readBand (h @ ys) (fst entry) \<noteq> None) es"
    using r same by (auto simp: list_all_iff)
  moreover have "map (\<lambda>entry. (the (readBand (h @ ys) (fst entry)), snd entry)) es = bands"
    unfolding b by (rule map_cong) (simp_all add: same)
  ultimately show ?thesis using d by (simp add: readEntries_def)
qed

lemma readRaw_append:
  assumes "readRaw h raw = Some x"
  shows "readRaw (h @ ys) raw = Some x"
proof (cases raw)
  case None
  then show ?thesis using assms by (simp add: readRaw_def)
next
  case (Some a)
  then obtain obj where obj: "lookup h a = Some obj"
    using assms by (cases "lookup h a") (simp_all add: readRaw_def)
  from lookup_append [OF obj, of ys] assms Some obj show ?thesis
    by (simp add: readRaw_def)
qed

lemma readResult_SomeD:
  assumes "readResult h p = Some sp"
  shows "\<exists>s entries bands raw. lookup h p = Some (Result s) \<and>
    lookup h (o_bandPeaks s) = Some (MapObject entries) \<and>
    readEntries h entries = Some bands \<and> readRaw h (o_rawSpectrum s) = Some raw \<and>
    sp = \<lparr>res_maxFrequency = o_maxFrequency s, resolution = o_resolution s,
      res_quantity = o_quantity s, bandPeaks = bands, isValid = o_isValid s,
      errorMessage = o_errorMessage s, rawSpectrum = raw\<rparr>"
  using assms
  by (auto simp: readResult_def split: option.splits object.splits)

lemma readResult_object:
  assumes "lookup h p = Some (Result s)"
    and "lookup h (o_bandPeaks s) = Some (MapObject entries)"
    and "readEntries h entries = Some bands"
    and "readRaw h (o_rawSpectrum s) = Some raw"
  shows "readResult h p =
    Some \<lparr>res_maxFrequency = o_maxFrequency s, resolution = o_resolution s,
      res_quantity = o_quantity s, bandPeaks = bands, isValid = o_isValid s,
      errorMessage = o_errorMessage s, rawSpectrum = raw\<rparr>"
  using assms by (simp add: readResult_def)

lemma readResult_append:
  assumes "readResult h p = Some sp"
  shows "readResult (h @ ys) p = Some sp"
proof -
  from readResult_SomeD [OF assms] obtain s entries bands raw where
    1: "lookup h p = Some (Result s)" and
    2: "lookup h (o_bandPeaks s) = Some (MapObject entries)" and
    3: "readEntries h entries = Some bands" and
    4: "readRaw h (o_rawSpectrum s) = Some raw" and
    5: "sp = \<lparr>res_maxFrequency = o_maxFrequency s, resolution = o_resolution s,
      res_quantity = o_quantity s, bandPeaks = bands, isValid = o_isValid s,
      errorMessage = o_errorMessage s, rawSpectrum = raw\<rparr>"
    by blast
  show ?thesis
    unfolding 5
    by (rule readResult_object [OF lookup_append [OF 1] lookup_append [OF 2]
          readEntries_append [OF 3] readRaw_append [OF 4]])
qed

lemma integrated_read:
  assumes "\<And>k b. readBand h k = Some b \<Longrightarrow> readBand h' k = Some b"
  shows "distinct (map fst es) \<Longrightarrow> list_all (\<lambda>entry. readBand h (fst entry) \<noteq> None) es \<Longrightarrow>
    fst ` set (integratedKeys h es) \<subseteq> fst ` set es \<and>
    distinct (map fst (integratedKeys h es)) \<and>
    list_all (\<lambda>entry. readBand h' (fst entry) \<noteq> None) (integratedKeys h es) \<and>
    map (\<lambda>entry. (the (readBand h' (fst entry)), snd entry)) (integratedKeys h es) =
      integratedEntries (map (\<lambda>entry. (the (readBand h (fst entry)), snd entry)) es)"
proof (induction es)
  case Nil
  show ?case by (simp add: integratedKeys_def integratedEntries_def)
next
  case (Cons e es)
  obtain k v where e: "e = (k, v)" by (cases e)
  from Cons.prems e obtain b where b: "readBand h k = Some b" by auto
  then have b': "readBand h' k = Some b" by (rule assms)
  have ih: "fst ` set (integratedKeys h es) \<subseteq> fst ` set es"
    "distinct (map fst (integratedKeys h es))"
    "list_all (\<lambda>entry. readBand h' (fst entry) \<noteq> None) (integratedKeys h es)"
    "map (\<lambda>entry. (the (readBand h' (fst entry)), snd entry)) (integratedKeys h es) =
      integratedEntries (map (\<lambda>entry. (the (readBand h (fst entry)), snd entry)) es)"
    using Cons.IH Cons.prems by auto
  have k: "k \<notin> fst ` set es" using Cons.prems(1) e by auto
  have ie: "integratedEntries ((b, v) # xs) =
      (if centerFreq b > 0
       then (b, limitPrecision (integrationQuotient b v)) # integratedEntries xs
       else integratedEntries xs)" for xs
    by (simp add: integratedEntries_def)
  show ?case
    using ih k b b' unfolding e by (auto simp: integratedKeys_Cons ie)
qed

lemma failed_copy:
  assumes 1: "lookup h p = Some (Result s)"
    and 2: "lookup h (o_bandPeaks s) = Some (MapObject entries)"
    and 3: "readEntries h entries = Some bands"
    and 4: "readRaw h (o_rawSpectrum s) = Some raw"
  shows "readResult (h @ [Result (s\<lparr>o_isValid := False, o_errorMessage := Some msg\<rparr>)]) (length h) =
    Some \<lparr>res_maxFrequency = o_maxFrequency s, resolution = o_resolution s,
      res_quantity = o_quantity s, bandPeaks = bands, isValid = False,
      errorMessage = Some msg, rawSpectrum = raw\<rparr>"
proof -
  define s' where "s' = s\<lparr>o_isValid := False, o_errorMessage := Some msg\<rparr>"
  define h' where "h' = h @ [Result s']"
  have a: "lookup h' (length h) = Some (Result s')" by (simp add: h'_def lookup_def)
  have b: "lookup h' (o_bandPeaks s') = Some (MapObject entries)"
    using lookup_append [OF 2] by (simp add: h'_def s'_def)
  have c: "readEntries h' entries = Some bands"
    unfolding h'_def using 3 by (rule readEntries_append)
  have d: "readRaw h' (o_rawSpectrum s') = Some raw"
    using readRaw_append [OF 4] by (simp add: h'_def s'_def)
  show ?thesis
    using readResult_object [OF a b c d] by (simp add: h'_def s'_def)
qed

text \<open>
  Claim C8. \<^verbatim>\<open>integrateSpectrum\<close> never writes to its input. For a heap \<open>h\<close> on which
  \<open>spectrum\<close> is a result, the call returns on every path (both rejections and the
  success) with a heap of which \<open>h\<close> is a prefix: every object that existed before the
  call, the input result, its map, its key arrays and its retained spectrum among them, is
  what it was. The input read after the call is the input read before it, the returned
  address is new, and the object there is the result of the functional model.
\<close>

theorem integrateSpectrum_leaves_input:
  assumes "readResult h spectrum = Some sp"
  shows "\<exists>h' result. integrateSpectrumHeap this h spectrum = Some (h', result) \<and>
    prefix h h' \<and> length h \<le> result \<and>
    readResult h' spectrum = Some sp \<and>
    readResult h' result = Some (integrateSpectrum this sp)"
proof -
  from readResult_SomeD [OF assms] obtain s entries bands raw where
    1: "lookup h spectrum = Some (Result s)" and
    2: "lookup h (o_bandPeaks s) = Some (MapObject entries)" and
    3: "readEntries h entries = Some bands" and
    4: "readRaw h (o_rawSpectrum s) = Some raw" and
    5: "sp = \<lparr>res_maxFrequency = o_maxFrequency s, resolution = o_resolution s,
      res_quantity = o_quantity s, bandPeaks = bands, isValid = o_isValid s,
      errorMessage = o_errorMessage s, rawSpectrum = raw\<rparr>"
    by blast
  consider (notAllowed) "\<not> isIntegrationAllowed this"
    | (displacement) "isIntegrationAllowed this" "o_quantity s = Displacement"
    | (success) "isIntegrationAllowed this" "o_quantity s \<noteq> Displacement"
    by blast
  then show ?thesis
  proof cases
    case notAllowed
    define msg where "msg = ''Integration is not allowed when high pass filter is not used''"
    define h' where "h' = h @ [Result (s\<lparr>o_isValid := False, o_errorMessage := Some msg\<rparr>)]"
    have run: "integrateSpectrumHeap this h spectrum = Some (h', length h)"
      using notAllowed 1 by (simp add: integrateSpectrumHeap_def alloc_def h'_def msg_def)
    have old: "readResult h' spectrum = Some sp"
      unfolding h'_def using assms by (rule readResult_append)
    have new: "readResult h' (length h) = Some (integrateSpectrum this sp)"
      unfolding h'_def using failed_copy [OF 1 2 3 4, of msg] notAllowed
      by (simp add: integrateSpectrum_def 5 msg_def)
    have "prefix h h'" by (simp add: h'_def)
    then show ?thesis using run old new by blast
  next
    case displacement
    define msg where "msg = ''Cannot integrate displacement to prevent double integration''"
    define h' where "h' = h @ [Result (s\<lparr>o_isValid := False, o_errorMessage := Some msg\<rparr>)]"
    have run: "integrateSpectrumHeap this h spectrum = Some (h', length h)"
      using displacement 1 by (simp add: integrateSpectrumHeap_def alloc_def h'_def msg_def)
    have old: "readResult h' spectrum = Some sp"
      unfolding h'_def using assms by (rule readResult_append)
    have new: "readResult h' (length h) = Some (integrateSpectrum this sp)"
      unfolding h'_def using failed_copy [OF 1 2 3 4, of msg] displacement
      by (simp add: integrateSpectrum_def 5 msg_def)
    have "prefix h h'" by (simp add: h'_def)
    then show ?thesis using run old new by blast
  next
    case success
    define newQuantity where
      "newQuantity = (if o_quantity s = Acceleration then Velocity else Displacement)"
    have nq: "(case o_quantity s of Acceleration \<Rightarrow> Velocity | Velocity \<Rightarrow> Displacement
        | Displacement \<Rightarrow> o_quantity s) = newQuantity"
      using success(2) by (cases "o_quantity s") (simp_all add: newQuantity_def)
    define s2 where
      "s2 = s\<lparr>o_quantity := newQuantity, o_bandPeaks := length h, o_isValid := True\<rparr>"
    define h2 where "h2 = h @ [MapObject [], Result s2]"
    define result where "result = Suc (length h)"
    define X where "X = integratedKeys h entries"
    define h3 where "h3 = h @ [MapObject X, Result s2]"
    from readEntries_SomeD [OF 3] have d: "distinct (map fst entries)"
      and r: "list_all (\<lambda>entry. readBand h (fst entry) \<noteq> None) entries"
      and b: "bands = map (\<lambda>entry. (the (readBand h (fst entry)), snd entry)) entries"
      by auto
    have keep: "readBand (h @ ys) k = Some b" if "readBand h k = Some b" for k b ys
      using that by (rule readBand_append)
    have a1: "lookup h2 result = Some (Result s2)"
      by (simp add: h2_def result_def lookup_def nth_append)
    have a2: "lookup h2 (o_bandPeaks s2) = Some (MapObject [])"
      by (simp add: h2_def s2_def lookup_def nth_append)
    have a3: "list_all (\<lambda>entry. readBand h2 (fst entry) \<noteq> None) entries"
      using r keep [of _ _ "[MapObject [], Result s2]"] by (auto simp: list_all_iff h2_def)
    have "integrateEntries h2 result entries =
        Some (h2[o_bandPeaks s2 := MapObject ([] @ integratedKeys h2 entries)])"
      using a1 a2 a3 d by (rule integrateEntries_effect) simp
    also have "integratedKeys h2 entries = X"
      unfolding X_def
    proof (rule integratedKeys_cong)
      fix k assume "k \<in> fst ` set entries"
      then obtain b where "readBand h k = Some b" using r by (auto simp: list_all_iff)
      then show "readBand h2 k = readBand h k"
        using keep [of k b "[MapObject [], Result s2]"] by (simp add: h2_def)
    qed
    also have "h2[o_bandPeaks s2 := MapObject ([] @ X)] = h3"
      by (simp add: h2_def h3_def s2_def list_update_append)
    finally have loop: "integrateEntries h2 result entries = Some h3" .
    have old_map: "lookup h2 (o_bandPeaks s) = Some (MapObject entries)"
      unfolding h2_def using 2 by (rule lookup_append)
    have run: "integrateSpectrumHeap this h spectrum = Some (h3, result)"
      using success 1 old_map loop
      by (simp add: integrateSpectrumHeap_def alloc_def Let_def nq h2_def s2_def result_def)
    have old: "readResult h3 spectrum = Some sp"
      unfolding h3_def using assms by (rule readResult_append)
    have b1: "lookup h3 result = Some (Result s2)"
      by (simp add: h3_def result_def lookup_def nth_append)
    have b2: "lookup h3 (o_bandPeaks s2) = Some (MapObject X)"
      by (simp add: h3_def s2_def lookup_def nth_append)
    have b3: "readEntries h3 X = Some (integratedEntries bands)"
      using integrated_read [of h h3 entries, OF _ d r] keep
      unfolding h3_def X_def b readEntries_def by auto
    have b4: "readRaw h3 (o_rawSpectrum s2) = Some raw"
      using readRaw_append [OF 4] by (simp add: h3_def s2_def)
    have new: "readResult h3 result = Some (integrateSpectrum this sp)"
      using readResult_object [OF b1 b2 b3 b4] success
      by (cases "o_quantity s")
        (simp_all add: integrateSpectrum_def fold_integrateBand Let_def 5 s2_def
          newQuantity_def)
    have "prefix h h3" "length h \<le> result" by (simp_all add: h3_def result_def)
    then show ?thesis using run old new by blast
  qed
qed

theorem integrateSpectrum_leaves_input_witness:
  "readResult exampleHeap 3 = Some exampleResult \<and>
   (\<exists>h' result. integrateSpectrumHeap integrationModule exampleHeap 3 = Some (h', result) \<and>
      prefix exampleHeap h' \<and> length exampleHeap \<le> result \<and>
      readResult h' 3 = Some exampleResult \<and>
      readResult h' result = Some (integrateSpectrum integrationModule exampleResult))"
proof -
  have "readResult exampleHeap 3 = Some exampleResult"
    by (simp add: readResult_def exampleHeap_def lookup_def readEntries_def readBand_def
        readRaw_def exampleResult_def)
  then show ?thesis
    using integrateSpectrum_leaves_input [of exampleHeap 3 exampleResult integrationModule]
    by simp
qed

end
